theory Spec2Isabelle
  imports Main
begin

section \<open>The Troop server: data model\<close>

text \<open>
  A shallow embedding of \<^verbatim>\<open>src/server.py\<close>: the master server \<^verbatim>\<open>TroopServer\<close>, its
  request handler \<^verbatim>\<open>TroopRequestHandler\<close> and the per-peer \<^verbatim>\<open>Client\<close>. Python integers
  are \<open>int\<close>, strings are \<open>string\<close>, a raised exception is the \<open>Inl\<close> branch of a sum.
  A method that mutates the server returns the server it leaves behind together with its
  result, also when it raises: what was mutated before the exception stays mutated.
\<close>

datatype error =
    DeadClientError string
  | SocketError
  | KeyError
  | AttributeError
  | IndexError
  | ValueError
  | AssertionError
  | IncompatibleOperationError
  | RevisionOutOfRange

subsection \<open>Python dictionaries, in insertion order\<close>

text \<open>
  \<^verbatim>\<open>self.clients\<close> is a dict whose values are iterated (\<^verbatim>\<open>list(self.clients.values())\<close>),
  so it is an association list in insertion order: assigning to a key that is present
  replaces the value where it stands, assigning to a new key appends, \<^verbatim>\<open>del\<close> removes.
\<close>

type_synonym ('k, 'v) dict = "('k \<times> 'v) list"

definition dict_keys :: "('k, 'v) dict \<Rightarrow> 'k list" where
  "dict_keys d = map fst d"

definition dict_values :: "('k, 'v) dict \<Rightarrow> 'v list" where
  "dict_values d = map snd d"

fun setitem :: "('k, 'v) dict \<Rightarrow> 'k \<Rightarrow> 'v \<Rightarrow> ('k, 'v) dict" where
  "setitem [] k v = [(k, v)]"
| "setitem ((k', v') # d) k v = (if k' = k then (k, v) # d else (k', v') # setitem d k v)"

definition delitem :: "('k, 'v) dict \<Rightarrow> 'k \<Rightarrow> ('k, 'v) dict" where
  "delitem d k = filter (\<lambda>kv. fst kv \<noteq> k) d"

definition getitem :: "('k, 'v) dict \<Rightarrow> 'k \<Rightarrow> error + 'v" where
  "getitem d k = (case map_of d k of None \<Rightarrow> Inl KeyError | Some v \<Rightarrow> Inr v)"

text \<open>\<^verbatim>\<open>range(a, b)\<close> on Python integers.\<close>

definition range2 :: "int \<Rightarrow> int \<Rightarrow> int list" where
  "range2 a b = [a..b - 1]"

subsection \<open>Messages\<close>

text \<open>
  An element of \<^verbatim>\<open>TextOperation.ops\<close>: a Python \<^verbatim>\<open>int\<close> (a retain when it is not negative,
  a delete of \<open>- n\<close> otherwise) or a Python \<^verbatim>\<open>str\<close> (an insert).
\<close>

datatype op_val = Num int | Str string

type_synonym ops = "op_val list"

text \<open>
  Modelled from the spec: the module \<^verbatim>\<open>message\<close> is not among the sources. A message carries
  \<^verbatim>\<open>src_id\<close>, an optional \<^verbatim>\<open>reply\<close> flag (\<open>None\<close> when the key is absent from
  \<^verbatim>\<open>msg.data\<close>) and the fields of its kind, as the spec's table of message kinds lists them.
\<close>

datatype msg_body =
    CONNECT string string int
  | CONNECT_ACK
  | REQUEST_ACK
  | OPERATION ops int
  | SET_ALL string "(int \<times> int) list" "(int \<times> int) list"
  | RESET string "(int \<times> int) list" "(int \<times> int) list"
  | REMOVE int
  | RESPONSE string
  | KILL string

record message =
  src_id :: int
  reply :: "int option"
  body :: msg_body

text \<open>
  Modelled from the spec: the constructors of \<^verbatim>\<open>message\<close> that the server calls. Their first
  argument is the \<^verbatim>\<open>src_id\<close>; none of them sets a \<^verbatim>\<open>reply\<close> flag.
\<close>

definition MSG_CONNECT :: "int \<Rightarrow> string \<Rightarrow> string \<Rightarrow> int \<Rightarrow> message" where
  "MSG_CONNECT i n h p = \<lparr>src_id = i, reply = None, body = CONNECT n h p\<rparr>"

definition MSG_REQUEST_ACK :: "int \<Rightarrow> message" where
  "MSG_REQUEST_ACK i = \<lparr>src_id = i, reply = None, body = REQUEST_ACK\<rparr>"

definition MSG_RESET ::
  "int \<Rightarrow> string \<Rightarrow> (int \<times> int) list \<Rightarrow> (int \<times> int) list \<Rightarrow> message" where
  "MSG_RESET i d r l = \<lparr>src_id = i, reply = None, body = RESET d r l\<rparr>"

definition MSG_REMOVE :: "int \<Rightarrow> message" where
  "MSG_REMOVE i = \<lparr>src_id = i, reply = None, body = REMOVE i\<rparr>"

subsection \<open>Clients and the server\<close>

text \<open>
  \<^verbatim>\<open>Client.source\<close> is the peer's socket. All the server does with it is \<^verbatim>\<open>sendall\<close>,
  which either delivers or raises; the socket is modelled by which of the two it does.
\<close>

datatype socket = Connected | Broken

type_synonym address = "string \<times> int"

record client =
  address :: address
  source :: socket
  id_num :: int
  name :: string
  index :: int

definition hostname :: "client \<Rightarrow> string" where
  "hostname c = fst (address c)"

definition port :: "client \<Rightarrow> int" where
  "port c = snd (address c)"

text \<open>\<^verbatim>\<open>Client.__init__\<close>: the cursor starts at 0.\<close>

definition Client :: "address \<Rightarrow> int \<Rightarrow> socket \<Rightarrow> string \<Rightarrow> client" where
  "Client a i r n = \<lparr>address = a, source = r, id_num = i, name = n, index = 0\<rparr>"

text \<open>
  The fields of \<^verbatim>\<open>TroopServer\<close> that the methods below read or write. \<^verbatim>\<open>backend\<close> is
  the revision log of the \<^verbatim>\<open>MemoryBackend\<close>; \<^verbatim>\<open>password\<close> is the hex digest of the session
  secret; \<^verbatim>\<open>acknowledged_clients\<close> is \<open>None\<close> until \<^verbatim>\<open>wait_for_ack\<close> first creates the
  attribute. \<open>sent\<close> is not a field of the class: it lists, in order, every message
  that a socket has delivered, with the id of the client it was delivered to.
\<close>

record server =
  document :: string
  backend :: "ops list"
  peer_tag_doc :: string
  waiting_for_ack :: bool
  acknowledged_clients :: "int list option"
  clients :: "(int, client) dict"
  max_id :: int
  last_id :: int
  password :: string
  msg_queue :: "message list"
  sent :: "(int \<times> message) list"

type_synonym 'a outcome = "(error + 'a) \<times> server"

text \<open>\<^verbatim>\<open>TroopServer.__init__\<close>, for an alphabet \<^verbatim>\<open>PEER_CHARS\<close> and a password digest.\<close>

definition init :: "string \<Rightarrow> string \<Rightarrow> server" where
  "init PEER_CHARS digest =
     \<lparr>document = [], backend = [], peer_tag_doc = [], waiting_for_ack = False,
      acknowledged_clients = None, clients = [],
      max_id = int (length PEER_CHARS) - 1, last_id = - 1,
      password = digest, msg_queue = [], sent = []\<rparr>"

text \<open>
  \<^verbatim>\<open>Client.send\<close>: any exception of \<^verbatim>\<open>sendall\<close> becomes \<^verbatim>\<open>DeadClientError(self.hostname)\<close>.
\<close>

definition send :: "client \<Rightarrow> message \<Rightarrow> server \<Rightarrow> unit outcome" where
  "send c m s =
     (case source c of
        Connected \<Rightarrow> (Inr (), s\<lparr>sent := sent s @ [(id_num c, m)]\<rparr>)
      | Broken \<Rightarrow> (Inl (DeadClientError (hostname c)), s))"

section \<open>Id allocation\<close>

text \<open>
  \<^verbatim>\<open>get_next_id\<close>. The \<^verbatim>\<open>for\<close> loop has no \<^verbatim>\<open>break\<close>: it assigns \<^verbatim>\<open>last_id\<close> at every
  free \<open>n\<close> it meets, and its \<^verbatim>\<open>else\<close> clause, which returns \<open>-2\<close>, runs whenever the
  loop ends.
\<close>

fun get_next_id_scan :: "int list \<Rightarrow> server \<Rightarrow> server" where
  "get_next_id_scan [] s = s"
| "get_next_id_scan (n # ns) s =
     (if n \<notin> set (dict_keys (clients s)) then get_next_id_scan ns (s\<lparr>last_id := n\<rparr>)
      else get_next_id_scan ns s)"

definition get_next_id :: "server \<Rightarrow> int \<times> server" where
  "get_next_id s =
     (if last_id s < max_id s then
        (let s' = s\<lparr>last_id := last_id s + 1\<rparr> in (last_id s', s'))
      else
        (- 2, get_next_id_scan (range2 (last_id s) (max_id s) @ range2 0 (last_id s)) s))"

section \<open>The peer-tag alphabet and the annotation string\<close>

text \<open>\<^verbatim>\<open>xs[i]\<close> on a Python sequence: a negative index counts from the end.\<close>

definition py_index :: "'a list \<Rightarrow> int \<Rightarrow> error + 'a" where
  "py_index xs i =
     (if 0 \<le> i \<and> i < int (length xs) then Inr (xs ! nat i)
      else if i < 0 \<and> 0 \<le> int (length xs) + i then Inr (xs ! nat (int (length xs) + i))
      else Inl IndexError)"

text \<open>\<^verbatim>\<open>xs.index(x)\<close>: the position of the first occurrence, if there is one.\<close>

fun index_of :: "'a list \<Rightarrow> 'a \<Rightarrow> nat option" where
  "index_of [] x = None"
| "index_of (y # ys) x = (if y = x then Some 0 else map_option Suc (index_of ys x))"

text \<open>
  Modelled from the spec: \<^verbatim>\<open>get_peer_char\<close> and \<^verbatim>\<open>get_peer_id_from_char\<close> of the module
  \<^verbatim>\<open>utils\<close>, and the alphabet \<^verbatim>\<open>PEER_CHARS\<close> of \<^verbatim>\<open>config\<close>, are not among the sources.
  The alphabet is a parameter; id \<open>i\<close> maps to its character \<open>i + 1\<close>, and a character maps
  back to the id whose tag it is.
\<close>

definition get_peer_char :: "string \<Rightarrow> int \<Rightarrow> error + char" where
  "get_peer_char PEER_CHARS i = py_index PEER_CHARS (i + 1)"

definition get_peer_id_from_char :: "string \<Rightarrow> char \<Rightarrow> error + int" where
  "get_peer_id_from_char PEER_CHARS c =
     (case index_of PEER_CHARS c of None \<Rightarrow> Inl ValueError | Some k \<Rightarrow> Inr (int k - 1))"

text \<open>
  \<^verbatim>\<open>get_client_ranges\<close>: the loop over \<^verbatim>\<open>peer_tag_doc[1:]\<close> with its variables \<^verbatim>\<open>p_char\<close>,
  \<^verbatim>\<open>count\<close> and \<^verbatim>\<open>data\<close>, and the append after the loop.
\<close>

fun get_client_ranges_loop ::
  "string \<Rightarrow> string \<Rightarrow> char \<Rightarrow> int \<Rightarrow> (int \<times> int) list \<Rightarrow> error + (int \<times> int) list" where
  "get_client_ranges_loop pc [] p_char count data =
     (if count > 0 then
        (case get_peer_id_from_char pc p_char of
           Inl e \<Rightarrow> Inl e
         | Inr p \<Rightarrow> Inr (data @ [(p, count)]))
      else Inr data)"
| "get_client_ranges_loop pc (ch # rest) p_char count data =
     (if ch \<noteq> p_char then
        (case get_peer_id_from_char pc p_char of
           Inl e \<Rightarrow> Inl e
         | Inr p \<Rightarrow> get_client_ranges_loop pc rest ch 1 (data @ [(p, count)]))
      else get_client_ranges_loop pc rest p_char (count + 1) data)"

definition get_client_ranges :: "string \<Rightarrow> server \<Rightarrow> error + (int \<times> int) list" where
  "get_client_ranges pc s =
     (case peer_tag_doc s of
        [] \<Rightarrow> Inr []
      | p_char # rest \<Rightarrow> get_client_ranges_loop pc rest p_char 1 [])"

text \<open>\<^verbatim>\<open>get_client_locs\<close>: a dict comprehension, so a later client with the same id wins.\<close>

definition get_client_locs :: "server \<Rightarrow> (int, int) dict" where
  "get_client_locs s =
     foldl (\<lambda>d c. setitem d (id_num c) (index c)) [] (dict_values (clients s))"

definition get_contents ::
  "string \<Rightarrow> server \<Rightarrow> error + string \<times> (int \<times> int) list \<times> (int, int) dict" where
  "get_contents pc s =
     (case get_client_ranges pc s of
        Inl e \<Rightarrow> Inl e
      | Inr r \<Rightarrow> Inr (document s, r, get_client_locs s))"

text \<open>
  What a client does with the ranges it receives: every pair \<open>(peer_id, run_length)\<close> stands
  for \<open>run_length\<close> copies of that peer's tag.
\<close>

fun expand_ranges :: "string \<Rightarrow> (int \<times> int) list \<Rightarrow> error + string" where
  "expand_ranges pc [] = Inr []"
| "expand_ranges pc ((p, n) # runs) =
     (case get_peer_char pc p of
        Inl e \<Rightarrow> Inl e
      | Inr c \<Rightarrow>
          (case expand_ranges pc runs of
             Inl e \<Rightarrow> Inl e
           | Inr r \<Rightarrow> Inr (replicate (nat n) c @ r)))"

section \<open>Text operations and the transform engine\<close>

text \<open>
  Modelled from the spec: the package \<^verbatim>\<open>ot\<close> (\<^verbatim>\<open>TextOperation\<close>, \<^verbatim>\<open>Server\<close>,
  \<^verbatim>\<open>MemoryBackend\<close>) is not among the sources. The base length of an operation is the sum
  of its retain and delete counts, its target length the sum of its retain and insert
  counts; applying it validates the base length against the document and fails with
  \<^verbatim>\<open>IncompatibleOperationError\<close> otherwise.
\<close>

fun base_length :: "ops \<Rightarrow> int" where
  "base_length [] = 0"
| "base_length (Num n # vs) = \<bar>n\<bar> + base_length vs"
| "base_length (Str t # vs) = base_length vs"


fun apply_steps :: "ops \<Rightarrow> string \<Rightarrow> string" where
  "apply_steps [] doc = []"
| "apply_steps (Num n # vs) doc =
     (if 0 \<le> n then take (nat n) doc @ apply_steps vs (drop (nat n) doc)
      else apply_steps vs (drop (nat (- n)) doc))"
| "apply_steps (Str t # vs) doc = t @ apply_steps vs doc"

definition apply_operation :: "ops \<Rightarrow> string \<Rightarrow> error + string" where
  "apply_operation operation doc =
     (if base_length operation = int (length doc) then Inr (apply_steps operation doc)
      else Inl IncompatibleOperationError)"

text \<open>
  Modelled from the spec: \<^verbatim>\<open>receive_operation\<close> of the \<^verbatim>\<open>ot\<close> server. The revision must
  lie between 0 and the current one; the operation is transformed against every operation
  of the log the sender has not seen, keeping the left result; its base length is
  validated; it is applied to the document and appended to the log. The transform of two
  concurrent operations is a parameter.
\<close>

type_synonym transform = "ops \<Rightarrow> ops \<Rightarrow> error + ops \<times> ops"

fun rebase :: "transform \<Rightarrow> ops \<Rightarrow> ops list \<Rightarrow> error + ops" where
  "rebase tr operation [] = Inr operation"
| "rebase tr operation (c # cs) =
     (case tr operation c of
        Inl e \<Rightarrow> Inl e
      | Inr (operation', _) \<Rightarrow> rebase tr operation' cs)"

definition receive_operation :: "transform \<Rightarrow> server \<Rightarrow> int \<Rightarrow> int \<Rightarrow> ops \<Rightarrow> ops outcome" where
  "receive_operation tr s src revision operation =
     (if revision < 0 \<or> int (length (backend s)) < revision then (Inl RevisionOutOfRange, s)
      else
        (case rebase tr operation (drop (nat revision) (backend s)) of
           Inl e \<Rightarrow> (Inl e, s)
         | Inr operation' \<Rightarrow>
             (case apply_operation operation' (document s) of
                Inl e \<Rightarrow> (Inl e, s)
              | Inr d \<Rightarrow> (Inr operation', s\<lparr>document := d, backend := backend s @ [operation']\<rparr>))))"

section \<open>Handling an edit\<close>

text \<open>
  The list comprehension of \<^verbatim>\<open>handle_operation\<close>: a string becomes the author's tag repeated
  over its length, any other value is kept. \<^verbatim>\<open>get_peer_char\<close> is only called at a string.
\<close>

fun peer_op_of :: "string \<Rightarrow> int \<Rightarrow> ops \<Rightarrow> error + ops" where
  "peer_op_of pc src [] = Inr []"
| "peer_op_of pc src (Str t # vs) =
     (case get_peer_char pc src of
        Inl e \<Rightarrow> Inl e
      | Inr ch \<Rightarrow>
          (case peer_op_of pc src vs of
             Inl e \<Rightarrow> Inl e
           | Inr r \<Rightarrow> Inr (Str (replicate (length t) ch) # r)))"
| "peer_op_of pc src (Num n # vs) =
     (case peer_op_of pc src vs of
        Inl e \<Rightarrow> Inl e
      | Inr r \<Rightarrow> Inr (Num n # r))"

text \<open>
  \<^verbatim>\<open>handle_operation\<close>. \<^verbatim>\<open>get_operation_index\<close> of \<^verbatim>\<open>utils\<close> is not among the sources and is
  a parameter. A message without the keys \<^verbatim>\<open>revision\<close> and \<^verbatim>\<open>operation\<close> raises
  \<^verbatim>\<open>KeyError\<close>, and so does an author who is not registered, after the document and the
  annotation have been updated.
\<close>

definition handle_operation ::
  "transform \<Rightarrow> (ops \<Rightarrow> error + int) \<Rightarrow> string \<Rightarrow> server \<Rightarrow> message \<Rightarrow> message outcome" where
  "handle_operation tr get_operation_index pc s message =
     (case body message of
        OPERATION operation revision \<Rightarrow>
          (case receive_operation tr s (src_id message) revision operation of
             (Inl e, s1) \<Rightarrow> (Inl e, s1)
           | (Inr operation', s1) \<Rightarrow>
               (case peer_op_of pc (src_id message) operation' of
                  Inl e \<Rightarrow> (Inl e, s1)
                | Inr peer_op \<Rightarrow>
                    (case apply_operation peer_op (peer_tag_doc s1) of
                       Inl e \<Rightarrow> (Inl e, s1)
                     | Inr tags \<Rightarrow>
                         (case getitem (clients s1) (src_id message) of
                            Inl e \<Rightarrow> (Inl e, s1\<lparr>peer_tag_doc := tags\<rparr>)
                          | Inr client \<Rightarrow>
                              (case get_operation_index operation' of
                                 Inl e \<Rightarrow> (Inl e, s1\<lparr>peer_tag_doc := tags\<rparr>)
                               | Inr i \<Rightarrow>
                                   (Inr (message\<lparr>body := OPERATION operation' revision\<rparr>),
                                    s1\<lparr>peer_tag_doc := tags,
                                       clients := setitem (clients s1) (src_id message)
                                                    (client\<lparr>index := i\<rparr>)\<rparr>))))))
      | _ \<Rightarrow> (Inl KeyError, s))"

section \<open>History and the acknowledgement barrier\<close>

definition clear_history :: "server \<Rightarrow> server" where
  "clear_history s = s\<lparr>backend := []\<rparr>"

definition wait_for_ack :: "server \<Rightarrow> server" where
  "wait_for_ack s = s\<lparr>waiting_for_ack := True, acknowledged_clients := Some []\<rparr>"

text \<open>
  \<^verbatim>\<open>connect_ack\<close>: \<^verbatim>\<open>self.acknowledged_clients\<close> does not exist before the first
  \<^verbatim>\<open>wait_for_ack\<close>, and appending to it raises \<^verbatim>\<open>AttributeError\<close> then.
\<close>

definition connect_ack :: "server \<Rightarrow> message \<Rightarrow> unit outcome" where
  "connect_ack s message =
     (case acknowledged_clients s of
        None \<Rightarrow> (Inl AttributeError, s)
      | Some acks \<Rightarrow>
          (if list_all (\<lambda>client_id. client_id \<in> set (acks @ [src_id message]))
                (dict_keys (clients s))
           then (Inr (), s\<lparr>waiting_for_ack := False, acknowledged_clients := Some []\<rparr>)
           else (Inr (), s\<lparr>acknowledged_clients := Some (acks @ [src_id message])\<rparr>)))"

section \<open>Broadcast and eviction\<close>

text \<open>\<^verbatim>\<open>for client in ...: client.send(m)\<close>: the first failing send ends the loop.\<close>

fun send_each :: "client list \<Rightarrow> message \<Rightarrow> server \<Rightarrow> unit outcome" where
  "send_each [] m s = (Inr (), s)"
| "send_each (c # cs) m s =
     (case send c m s of
        (Inl e, s1) \<Rightarrow> (Inl e, s1)
      | (Inr _, s1) \<Rightarrow> send_each cs m s1)"

definition remove_client :: "server \<Rightarrow> int \<Rightarrow> unit outcome" where
  "remove_client s client_id =
     (let s1 = (if client_id \<in> set (dict_keys (clients s))
                then s\<lparr>clients := delitem (clients s) client_id\<rparr> else s)
      in send_each (dict_values (clients s1)) (MSG_REMOVE client_id) s1)"

text \<open>
  \<^verbatim>\<open>respond\<close>, over the snapshot \<^verbatim>\<open>list(self.clients.values())\<close>. The \<^verbatim>\<open>except\<close> clause
  catches the \<^verbatim>\<open>DeadClientError\<close> of the send in the \<^verbatim>\<open>try\<close> block only: one that
  \<^verbatim>\<open>remove_client\<close> raises inside the handler leaves \<^verbatim>\<open>respond\<close>.
\<close>

fun respond_loop :: "client list \<Rightarrow> message \<Rightarrow> server \<Rightarrow> unit outcome" where
  "respond_loop [] msg s = (Inr (), s)"
| "respond_loop (c # cs) msg s =
     (if id_num c \<noteq> src_id msg \<or> reply msg = None \<or> reply msg = Some 1 then
        (case send c msg s of
           (Inr _, s1) \<Rightarrow> respond_loop cs msg s1
         | (Inl (DeadClientError h), s1) \<Rightarrow>
             (case remove_client s1 (id_num c) of
                (Inl e, s2) \<Rightarrow> (Inl e, s2)
              | (Inr _, s2) \<Rightarrow> respond_loop cs msg s2)
         | (Inl e, s1) \<Rightarrow> (Inl e, s1))
      else respond_loop cs msg s)"

definition respond :: "server \<Rightarrow> message \<Rightarrow> unit outcome" where
  "respond s msg = respond_loop (dict_values (clients s)) msg s"

section \<open>The request handler\<close>

text \<open>
  The fields of a \<^verbatim>\<open>TroopRequestHandler\<close>: the peer's address, its socket
  (\<^verbatim>\<open>self.request\<close>) and the id that \<^verbatim>\<open>authenticate\<close> stores.
\<close>

record handler =
  client_address :: address
  request :: socket
  client_id :: int

subsection \<open>Authentication\<close>

text \<open>
  \<^verbatim>\<open>"{:04d}".format(n)\<close>: the decimal digits of \<open>n\<close>, a minus sign in front of a negative
  number, and zeros between the sign and the digits up to a width of 4 characters.
\<close>

fun decimal :: "nat \<Rightarrow> string" where
  "decimal n =
     (if n < 10 then [''0123456789'' ! n]
      else decimal (n div 10) @ [''0123456789'' ! (n mod 10)])"

declare decimal.simps [simp del]

definition format_04d :: "int \<Rightarrow> string" where
  "format_04d n =
     (if n < 0 then
        CHR ''-'' # replicate (3 - length (decimal (nat (- n)))) CHR ''0'' @ decimal (nat (- n))
      else replicate (4 - length (decimal (nat n))) CHR ''0'' @ decimal (nat n))"

text \<open>
  \<^verbatim>\<open>authenticate\<close> stores the client id, sends the reply with \<^verbatim>\<open>self.request.send\<close> and
  returns the id. The send is the socket's own: on a broken socket it raises the socket's
  error (\<open>SocketError\<close>), after \<^verbatim>\<open>get_next_id\<close> has changed the server, and nothing is
  returned. When it delivers, the model returns the id, the reply that was sent and the
  handler, which has stored the id.
\<close>

definition authenticate ::
  "handler \<Rightarrow> server \<Rightarrow> string \<Rightarrow> (int \<times> string \<times> handler) outcome" where
  "authenticate h s pw =
     (case (if pw = password s then get_next_id s else (- 1, s)) of
        (i, s') \<Rightarrow>
          (case request h of
             Connected \<Rightarrow> (Inr (i, format_04d i, h\<lparr>client_id := i\<rparr>), s')
           | Broken \<Rightarrow> (Inl SocketError, s')))"

definition not_authenticated ::
  "handler \<Rightarrow> server \<Rightarrow> string \<Rightarrow> (bool \<times> string \<times> handler) outcome" where
  "not_authenticated h s pw =
     (case authenticate h s pw of
        (Inl e, s') \<Rightarrow> (Inl e, s')
      | (Inr (i, rep, h'), s') \<Rightarrow> (Inr (i < 0, rep, h'), s'))"

subsection \<open>Joining\<close>

text \<open>
  \<^verbatim>\<open>connect_clients\<close>. \<^verbatim>\<open>client != self.client_address\<close> is \<^verbatim>\<open>Client.__ne__\<close>, which
  compares the client's address.
\<close>

fun connect_clients_loop ::
  "handler \<Rightarrow> client \<Rightarrow> message \<Rightarrow> client list \<Rightarrow> server \<Rightarrow> unit outcome" where
  "connect_clients_loop h new_client msg1 [] s = (Inr (), s)"
| "connect_clients_loop h new_client msg1 (c # cs) s =
     (case send c msg1 s of
        (Inl e, s1) \<Rightarrow> (Inl e, s1)
      | (Inr _, s1) \<Rightarrow>
          (case (if address c \<noteq> client_address h
                 then send new_client (MSG_CONNECT (id_num c) (name c) (hostname c) (port c)) s1
                 else (Inr (), s1)) of
             (Inl e, s2) \<Rightarrow> (Inl e, s2)
           | (Inr _, s2) \<Rightarrow>
               (case send c (MSG_REQUEST_ACK (- 1)) s2 of
                  (Inl e, s3) \<Rightarrow> (Inl e, s3)
                | (Inr _, s3) \<Rightarrow> connect_clients_loop h new_client msg1 cs s3)))"

definition connect_clients :: "handler \<Rightarrow> server \<Rightarrow> client \<Rightarrow> unit outcome" where
  "connect_clients h s new_client =
     (let s1 = s\<lparr>clients := setitem (clients s) (id_num new_client) new_client\<rparr>;
          msg1 = MSG_CONNECT (id_num new_client) (name new_client)
                   (hostname new_client) (port new_client)
      in connect_clients_loop h new_client msg1 (dict_values (clients s1)) s1)"

text \<open>
  \<^verbatim>\<open>handle_connect\<close>. \<^verbatim>\<open>self.client_address not in list(self.master.clients.values())\<close>
  compares with \<^verbatim>\<open>Client.__eq__\<close>, that is, with the address of every client. The result
  is the new client, or \<^verbatim>\<open>None\<close>.
\<close>

definition handle_connect :: "handler \<Rightarrow> server \<Rightarrow> message \<Rightarrow> client option outcome" where
  "handle_connect h s msg =
     (case body msg of
        CONNECT nm hst prt \<Rightarrow>
          (if client_address h \<notin> set (map address (dict_values (clients s))) then
             (let s1 = wait_for_ack s;
                  new_client = Client (client_address h) (client_id h) (request h) nm
              in (case connect_clients h s1 new_client of
                    (Inl e, s2) \<Rightarrow> (Inl e, s2)
                  | (Inr _, s2) \<Rightarrow> (Inr (Some new_client), s2)))
           else (Inr None, s))
      | _ \<Rightarrow> (Inl AssertionError, s))"

definition update_all_clients :: "string \<Rightarrow> server \<Rightarrow> unit outcome" where
  "update_all_clients pc s =
     (case get_contents pc s of
        Inl e \<Rightarrow> (Inl e, s)
      | Inr (d, r, l) \<Rightarrow> send_each (dict_values (clients s)) (MSG_RESET (- 1) d r l) s)"

subsection \<open>The message loop\<close>

definition is_connect :: "message \<Rightarrow> bool" where
  "is_connect msg = (case body msg of CONNECT nm hst prt \<Rightarrow> True | _ \<Rightarrow> False)"

text \<open>The body of \<^verbatim>\<open>for msg in packet\<close> in \<^verbatim>\<open>handle\<close>.\<close>

definition handle_msg :: "string \<Rightarrow> handler \<Rightarrow> server \<Rightarrow> message \<Rightarrow> unit outcome" where
  "handle_msg pc h s msg =
     (if is_connect msg then
        (case handle_connect h s msg of
           (Inl e, s1) \<Rightarrow> (Inl e, s1)
         | (Inr new_client, s1) \<Rightarrow>
             (case update_all_clients pc s1 of
                (Inl e, s2) \<Rightarrow> (Inl e, s2)
              | (Inr _, s2) \<Rightarrow> (Inr (), clear_history s2)))
      else if waiting_for_ack s then
        (if body msg = CONNECT_ACK then connect_ack s msg else (Inr (), s))
      else (Inr (), s\<lparr>msg_queue := msg_queue s @ [msg]\<rparr>))"

fun handle_packet :: "string \<Rightarrow> handler \<Rightarrow> server \<Rightarrow> message list \<Rightarrow> unit outcome" where
  "handle_packet pc h s [] = (Inr (), s)"
| "handle_packet pc h s (msg # packet) =
     (case handle_msg pc h s msg of
        (Inl e, s1) \<Rightarrow> (Inl e, s1)
      | (Inr _, s1) \<Rightarrow> handle_packet pc h s1 packet)"

definition handle_client_lost :: "handler \<Rightarrow> server \<Rightarrow> unit outcome" where
  "handle_client_lost h s = remove_client s (client_id h)"

text \<open>
  What one \<^verbatim>\<open>get_message\<close> gives the loop of \<^verbatim>\<open>handle\<close>: a packet of messages,
  \<^verbatim>\<open>None\<close>, or an exception. The loop runs while \<^verbatim>\<open>self.master.running\<close>; the list of
  reads ends where the server stops running.
\<close>

datatype recv = Packet "message list" | Nothing | Failed

text \<open>
  A \<^verbatim>\<open>None\<close> packet calls \<^verbatim>\<open>handle_client_lost\<close> inside the \<^verbatim>\<open>try\<close> block, so an exception
  of that call is caught by \<^verbatim>\<open>except Exception\<close>, which calls it once more.
\<close>

fun handle_loop :: "string \<Rightarrow> handler \<Rightarrow> server \<Rightarrow> recv list \<Rightarrow> unit outcome" where
  "handle_loop pc h s [] = (Inr (), s)"
| "handle_loop pc h s (Nothing # reads) =
     (case handle_client_lost h s of
        (Inl e, s1) \<Rightarrow> handle_client_lost h s1
      | (Inr _, s1) \<Rightarrow> (Inr (), s1))"
| "handle_loop pc h s (Failed # reads) = handle_client_lost h s"
| "handle_loop pc h s (Packet packet # reads) =
     (case handle_packet pc h s packet of
        (Inl e, s1) \<Rightarrow> (Inl e, s1)
      | (Inr _, s1) \<Rightarrow> handle_loop pc h s1 reads)"

text \<open>
  \<^verbatim>\<open>handle\<close>, for the password of the first frame and the reads that follow: the reply
  sent on the socket, if one was sent, and the outcome. An exception of
  \<^verbatim>\<open>not_authenticated\<close> is not caught and ends \<^verbatim>\<open>handle\<close>.
\<close>

definition handle ::
  "string \<Rightarrow> handler \<Rightarrow> server \<Rightarrow> string \<Rightarrow> recv list \<Rightarrow> string option \<times> unit outcome"
  where
  "handle pc h s pw reads =
     (case not_authenticated h s pw of
        (Inl e, s') \<Rightarrow> (None, (Inl e, s'))
      | (Inr (refused, rep, h'), s') \<Rightarrow>
          (if refused then (Some rep, (Inr (), s'))
           else (Some rep, handle_loop pc h' s' reads)))"

section \<open>The dispatch loop\<close>

definition is_operation :: "message \<Rightarrow> bool" where
  "is_operation msg = (case body msg of OPERATION operation revision \<Rightarrow> True | _ \<Rightarrow> False)"

text \<open>
  One turn of \<^verbatim>\<open>update_send\<close>: an empty queue changes nothing; otherwise the first message
  is taken, passed through \<^verbatim>\<open>handle_operation\<close> when it is an edit, and broadcast.
\<close>

definition update_send ::
  "transform \<Rightarrow> (ops \<Rightarrow> error + int) \<Rightarrow> string \<Rightarrow> server \<Rightarrow> unit outcome" where
  "update_send tr get_operation_index pc s =
     (case msg_queue s of
        [] \<Rightarrow> (Inr (), s)
      | msg # q \<Rightarrow>
          (if is_operation msg then
             (case handle_operation tr get_operation_index pc (s\<lparr>msg_queue := q\<rparr>) msg of
                (Inl e, s1) \<Rightarrow> (Inl e, s1)
              | (Inr msg', s1) \<Rightarrow> respond s1 msg')
           else respond (s\<lparr>msg_queue := q\<rparr>) msg))"

section \<open>The specification's wording, and an example session\<close>


text \<open>
  What the peer reads from the reply: an optional minus sign and decimal digits.
\<close>

definition digit_value :: "char \<Rightarrow> nat" where
  "digit_value c = (case index_of ''0123456789'' c of None \<Rightarrow> 0 | Some k \<Rightarrow> k)"

definition read_digits :: "string \<Rightarrow> nat" where
  "read_digits ds = foldl (\<lambda>a c. 10 * a + digit_value c) 0 ds"

definition read_reply :: "string \<Rightarrow> int" where
  "read_reply r =
     (case r of
        [] \<Rightarrow> 0
      | c # ds \<Rightarrow> if c = CHR ''-'' then - int (read_digits ds) else int (read_digits (c # ds)))"

text \<open>
  The acknowledgement list exists whenever the server waits for acknowledgements, and a
  step that leaves the barrier alone.
\<close>

definition barrier_ready :: "server \<Rightarrow> bool" where
  "barrier_ready s = (if waiting_for_ack s then acknowledged_clients s \<noteq> None else True)"

definition same_barrier :: "server \<Rightarrow> server \<Rightarrow> bool" where
  "same_barrier s s' =
     (waiting_for_ack s' = waiting_for_ack s \<and> acknowledged_clients s' = acknowledged_clients s)"

text \<open>
  The servers that the handlers and the dispatch loop can produce, one step at a time: a
  handler authenticates, handles a message or loses its client; the dispatch loop takes a
  turn. A step that raises leaves the server it had reached. Steps are allowed in any
  order and also after an exception, so the predicate holds of every server that a run of
  the program can reach, and of more.
\<close>

inductive reachable ::
  "transform \<Rightarrow> (ops \<Rightarrow> error + int) \<Rightarrow> string \<Rightarrow> string \<Rightarrow> server \<Rightarrow> bool"
  for tr :: transform and get_operation_index :: "ops \<Rightarrow> error + int"
    and pc :: string and digest :: string where
  start: "reachable tr get_operation_index pc digest (init pc digest)"
| login: "reachable tr get_operation_index pc digest s \<Longrightarrow>
     reachable tr get_operation_index pc digest (snd (authenticate h s pw))"
| message: "reachable tr get_operation_index pc digest s \<Longrightarrow>
     reachable tr get_operation_index pc digest (snd (handle_msg pc h s msg))"
| lost: "reachable tr get_operation_index pc digest s \<Longrightarrow>
     reachable tr get_operation_index pc digest (snd (handle_client_lost h s))"
| dispatch: "reachable tr get_operation_index pc digest s \<Longrightarrow>
     reachable tr get_operation_index pc digest (snd (update_send tr get_operation_index pc s))"

text \<open>
  A session over the alphabet \<^verbatim>\<open>"0123"\<close>, so that \<^verbatim>\<open>max_id\<close> is 3: the peer with id \<open>i\<close>
  at port \<open>50000 + i\<close>, and a server with a given registry.
\<close>

definition peer :: "int \<Rightarrow> socket \<Rightarrow> client" where
  "peer i sk = Client (''10.0.0.7'', 50000 + i) i sk ''peer''"

definition session :: "(int, client) dict \<Rightarrow> server" where
  "session cs = (init ''0123'' ''5f4dcc3b'')\<lparr>clients := cs\<rparr>"

definition visitor :: "int \<Rightarrow> handler" where
  "visitor i = \<lparr>client_address = (''10.0.0.7'', 50000 + i), request = Connected, client_id = i\<rparr>"

section \<open>Lemmas on the model\<close>

lemmas example_defs = session_def init_def peer_def Client_def visitor_def

subsection \<open>Sending to connected clients\<close>

lemma send_connected:
  "source c = Connected \<Longrightarrow> send c m s = (Inr (), s\<lparr>sent := sent s @ [(id_num c, m)]\<rparr>)"
  by (simp add: send_def)

lemma send_each_connected:
  "list_all (\<lambda>c. source c = Connected) cs \<Longrightarrow>
   send_each cs m s = (Inr (), s\<lparr>sent := sent s @ map (\<lambda>c. (id_num c, m)) cs\<rparr>)"
  by (induction cs arbitrary: s) (simp_all add: send_connected)

lemma respond_loop_connected:
  "list_all (\<lambda>c. source c = Connected) cs \<Longrightarrow>
   respond_loop cs msg s =
     (Inr (), s\<lparr>sent := sent s @ map (\<lambda>c. (id_num c, msg))
        (filter (\<lambda>c. \<not> (id_num c = src_id msg \<and> reply msg \<noteq> None \<and> reply msg \<noteq> Some 1))
           cs)\<rparr>)"
  by (induction cs arbitrary: s) (auto simp: send_connected)

subsection \<open>The alphabet\<close>

lemma index_of_member:
  "x \<in> set xs \<Longrightarrow> \<exists>k. index_of xs x = Some k"
  by (induction xs) auto

lemma index_of_nth:
  "index_of xs x = Some k \<Longrightarrow> k < length xs \<and> xs ! k = x"
  by (induction xs arbitrary: k) (auto split: if_splits)

lemma get_peer_char_of_id:
  assumes "get_peer_id_from_char pc c = Inr p"
  shows "get_peer_char pc p = Inr c"
proof -
  from assms obtain k where k: "index_of pc c = Some k" and p: "p = int k - 1"
    by (auto simp: get_peer_id_from_char_def split: option.splits)
  from index_of_nth [OF k] have "k < length pc" and "pc ! k = c" by simp_all
  with p show ?thesis by (simp add: get_peer_char_def py_index_def)
qed

lemma get_peer_id_from_char_member:
  "c \<in> set pc \<Longrightarrow> \<exists>p. get_peer_id_from_char pc c = Inr p"
  by (auto simp: get_peer_id_from_char_def dest: index_of_member)

lemma get_peer_id_from_char_inj:
  assumes "get_peer_id_from_char pc c = Inr p" and "get_peer_id_from_char pc c' = Inr p"
  shows "c = c'"
  using get_peer_char_of_id [OF assms(1)] get_peer_char_of_id [OF assms(2)] by simp

subsection \<open>The loop of \<^verbatim>\<open>get_client_ranges\<close>\<close>

lemma distinct_adj_Cons_hd:
  "distinct_adj (x # xs) \<longleftrightarrow> xs = [] \<or> (x \<noteq> hd xs \<and> distinct_adj xs)"
  by (cases xs) auto

text \<open>
  With \<open>count\<close> characters \<open>p_char\<close> already read and \<open>rest\<close> still to read, the loop
  appends to \<open>data\<close> runs that start with the id of \<open>p_char\<close>, whose lengths add up to
  what is left, whose neighbours differ, and which expand to what is left.
\<close>

lemma get_client_ranges_loop_runs:
  assumes "set (p_char # rest) \<subseteq> set pc" and "0 < count"
  shows "\<exists>runs. get_client_ranges_loop pc rest p_char count data = Inr (data @ runs)
           \<and> runs \<noteq> []
           \<and> get_peer_id_from_char pc p_char = Inr (fst (hd runs))
           \<and> sum_list (map snd runs) = count + int (length rest)
           \<and> distinct_adj (map fst runs)
           \<and> expand_ranges pc runs = Inr (replicate (nat count) p_char @ rest)"
  using assms
proof (induction rest arbitrary: p_char count data)
  case Nil
  then obtain p where p: "get_peer_id_from_char pc p_char = Inr p"
    using get_peer_id_from_char_member by fastforce
  with Nil show ?case
    by (simp add: get_peer_char_of_id [OF p])
next
  case (Cons ch rest)
  from Cons.prems obtain p where p: "get_peer_id_from_char pc p_char = Inr p"
    using get_peer_id_from_char_member by fastforce
  show ?case
  proof (cases "ch = p_char")
    case True
    from Cons.prems have "set (p_char # rest) \<subseteq> set pc" and "0 < count + 1" by auto
    from Cons.IH [OF this, of data] obtain runs where
      r: "get_client_ranges_loop pc rest p_char (count + 1) data = Inr (data @ runs)"
        "runs \<noteq> []" "get_peer_id_from_char pc p_char = Inr (fst (hd runs))"
        "sum_list (map snd runs) = count + 1 + int (length rest)"
        "distinct_adj (map fst runs)"
        "expand_ranges pc runs = Inr (replicate (nat (count + 1)) p_char @ rest)"
      by blast
    from Cons.prems have "nat (count + 1) = Suc (nat count)" by simp
    with r True show ?thesis
      by (simp add: replicate_append_same)
  next
    case False
    from Cons.prems have "set (ch # rest) \<subseteq> set pc" and "0 < (1::int)" by auto
    from Cons.IH [OF this, of "data @ [(p, count)]"] obtain runs where
      r: "get_client_ranges_loop pc rest ch 1 (data @ [(p, count)]) =
            Inr ((data @ [(p, count)]) @ runs)"
        "runs \<noteq> []" "get_peer_id_from_char pc ch = Inr (fst (hd runs))"
        "sum_list (map snd runs) = 1 + int (length rest)"
        "distinct_adj (map fst runs)"
        "expand_ranges pc runs = Inr (replicate (nat 1) ch @ rest)"
      by blast
    have ne: "p \<noteq> fst (hd runs)"
      using get_peer_id_from_char_inj [of pc p_char p ch] p r(3) False by auto
    have "distinct_adj (map fst ((p, count) # runs))"
      using ne r(2,5) by (simp add: distinct_adj_Cons_hd hd_map)
    with r p False show ?thesis
      by (intro exI [of _ "(p, count) # runs"]) (simp add: get_peer_char_of_id [OF p])
  qed
qed

subsection \<open>Lengths of operations\<close>






lemma digit_value_nth: "k < 10 \<Longrightarrow> digit_value (''0123456789'' ! k) = k"
proof -
  assume "k < 10"
  then have "k \<in> {0, 1, 2, 3, 4, 5, 6, 7, 8, 9}" by auto
  then show ?thesis by (auto simp: digit_value_def)
qed

lemma digit_not_minus: "k < 10 \<Longrightarrow> ''0123456789'' ! k \<noteq> CHR ''-''"
proof -
  assume "k < 10"
  then have "k \<in> {0, 1, 2, 3, 4, 5, 6, 7, 8, 9}" by auto
  then show ?thesis by auto
qed

lemma read_digits_snoc: "read_digits (ds @ [c]) = 10 * read_digits ds + digit_value c"
  by (simp add: read_digits_def)

lemma read_digits_decimal: "read_digits (decimal n) = n"
proof (induction n rule: decimal.induct)
  case (1 n)
  show ?case
  proof (cases "n < 10")
    case True
    then show ?thesis
      by (subst decimal.simps) (simp add: read_digits_def digit_value_nth)
  next
    case False
    with 1 have "read_digits (decimal (n div 10)) = n div 10" by simp
    with False show ?thesis
      by (subst decimal.simps) (simp add: read_digits_snoc digit_value_nth)
  qed
qed

lemma read_digits_zeros: "read_digits (replicate k CHR ''0'' @ ds) = read_digits ds"
proof -
  have "foldl (\<lambda>a c. 10 * a + digit_value c) 0 (replicate k CHR ''0'') = 0"
    by (induction k) (simp_all add: digit_value_def replicate_append_same [symmetric])
  then show ?thesis by (simp add: read_digits_def)
qed

lemma decimal_not_Nil: "decimal n \<noteq> []"
  by (subst decimal.simps) simp

lemma hd_decimal_not_minus: "hd (decimal n) \<noteq> CHR ''-''"
proof (induction n rule: decimal.induct)
  case (1 n)
  show ?case
  proof (cases "n < 10")
    case True
    then show ?thesis by (subst decimal.simps) (simp add: digit_not_minus)
  next
    case False
    with 1 decimal_not_Nil [of "n div 10"] show ?thesis
      by (subst decimal.simps) simp
  qed
qed

lemma read_reply_format_04d: "read_reply (format_04d n) = n"
proof (cases "n < 0")
  case True
  then show ?thesis
    by (simp add: format_04d_def read_reply_def read_digits_zeros read_digits_decimal)
next
  case False
  let ?r = "replicate (4 - length (decimal (nat n))) CHR ''0'' @ decimal (nat n)"
  have "?r \<noteq> []" using decimal_not_Nil by simp
  moreover have "hd ?r \<noteq> CHR ''-''"
    using hd_decimal_not_minus [of "nat n"] decimal_not_Nil [of "nat n"]
    by (cases "4 - length (decimal (nat n))") (simp_all add: hd_append)
  ultimately have "read_reply ?r = int (read_digits ?r)"
    by (cases ?r) (auto simp: read_reply_def)
  with False show ?thesis
    by (simp add: format_04d_def read_digits_zeros read_digits_decimal)
qed

lemma length_decimal_le:
  "n < 10 ^ k \<Longrightarrow> 0 < k \<Longrightarrow> length (decimal n) \<le> k"
proof (induction n arbitrary: k rule: decimal.induct)
  case (1 n)
  show ?case
  proof (cases "n < 10")
    case True
    with 1 show ?thesis by (subst decimal.simps) simp
  next
    case False
    then obtain k' where k: "k = Suc k'" "0 < k'" using 1(2,3)
      by (cases k; cases "k - 1") auto
    from 1(2) k have "n div 10 < 10 ^ k'"
      by (simp add: less_mult_imp_div_less mult.commute)
    from "1.IH" [OF False this k(2)] False k show ?thesis
      by (subst decimal.simps) simp
  qed
qed

lemma length_format_04d:
  assumes "- 1000 < n" "n < 10000"
  shows "length (format_04d n) = 4"
proof (cases "n < 0")
  case True
  with assms have "nat (- n) < 10 ^ 3" by simp
  from length_decimal_le [OF this] have "length (decimal (nat (- n))) \<le> 3" by simp
  with True show ?thesis by (simp add: format_04d_def)
next
  case False
  with assms have "nat n < 10 ^ 4" by simp
  from length_decimal_le [OF this] have "length (decimal (nat n)) \<le> 4" by simp
  with False show ?thesis by (simp add: format_04d_def)
qed

section \<open>Run-length encoding of the annotation\<close>

text \<open>
  C6: for every annotation string over the alphabet, \<^verbatim>\<open>get_client_ranges\<close> returns runs
  that cover the whole string: the run lengths add up to the length of \<^verbatim>\<open>peer_tag_doc\<close>,
  two adjacent runs carry distinct peer ids, and expanding every pair
  \<open>(peer_id, run_length)\<close> to \<open>run_length\<close> copies of that peer's tag gives
  \<^verbatim>\<open>peer_tag_doc\<close> back; the result is the empty list exactly for the empty annotation.
\<close>

theorem get_client_ranges_run_length:
  assumes "set (peer_tag_doc s) \<subseteq> set pc"
  shows "\<exists>runs. get_client_ranges pc s = Inr runs
           \<and> sum_list (map snd runs) = int (length (peer_tag_doc s))
           \<and> distinct_adj (map fst runs)
           \<and> expand_ranges pc runs = Inr (peer_tag_doc s)
           \<and> (runs = []) = (peer_tag_doc s = [])"
proof (cases "peer_tag_doc s")
  case Nil
  then show ?thesis by (simp add: get_client_ranges_def)
next
  case (Cons p_char rest)
  with assms have "set (p_char # rest) \<subseteq> set pc" and "0 < (1::int)" by simp_all
  from get_client_ranges_loop_runs [OF this, of "[]"] Cons show ?thesis
    by (auto simp: get_client_ranges_def)
qed

theorem get_client_ranges_run_length_witness:
  "set (peer_tag_doc ((session [])\<lparr>peer_tag_doc := ''112''\<rparr>)) \<subseteq> set ''0123''
   \<and> get_client_ranges ''0123'' ((session [])\<lparr>peer_tag_doc := ''112''\<rparr>) = Inr [(0, 2), (1, 1)]
   \<and> (\<exists>runs. get_client_ranges ''0123'' ((session [])\<lparr>peer_tag_doc := ''112''\<rparr>) = Inr runs
         \<and> sum_list (map snd runs) = 3
         \<and> distinct_adj (map fst runs)
         \<and> expand_ranges ''0123'' runs = Inr ''112''
         \<and> runs \<noteq> [])"
proof -
  have h: "set (peer_tag_doc ((session [])\<lparr>peer_tag_doc := ''112''\<rparr>)) \<subseteq> set ''0123''"
    by simp
  have v: "get_client_ranges ''0123'' ((session [])\<lparr>peer_tag_doc := ''112''\<rparr>) =
           Inr [(0, 2), (1, 1)]"
    by (simp add: get_client_ranges_def get_peer_id_from_char_def)
  from get_client_ranges_run_length [OF h] h v show ?thesis by simp
qed

section \<open>The annotation keeps the document's length\<close>



section \<open>Authentication\<close>

lemma authenticate_broken_socket:
  assumes "request h = Broken"
  shows "fst (authenticate h s pw) = Inl SocketError"
    and "handle pc h s pw reads = (None, (Inl SocketError, snd (authenticate h s pw)))"
  using assms
  by (auto simp: authenticate_def not_authenticated_def handle_def split: prod.splits)

text \<open>
  C7: for an authentication attempt on a socket that delivers the reply: when the supplied
  password differs from the server's hex digest, the client id is \<open>-1\<close> and the reply sent
  on the socket is the four characters \<^verbatim>\<open>-001\<close>; when it matches, the reply is the id
  that \<^verbatim>\<open>get_next_id\<close> has allocated, formatted as a signed, zero-padded decimal of width
  4 (it reads back as the id, and has four characters for an id between \<open>-999\<close> and
  \<open>9999\<close>); and \<^verbatim>\<open>handle\<close> enters its message loop exactly when the returned id is not
  negative.
\<close>

theorem authenticate_reply:
  assumes "request h = Connected"
  shows "(pw \<noteq> password s \<longrightarrow>
      authenticate h s pw = (Inr (- 1, ''-001'', h\<lparr>client_id := - 1\<rparr>), s))
   \<and> (pw = password s \<longrightarrow>
      authenticate h s pw =
        (Inr (fst (get_next_id s), format_04d (fst (get_next_id s)),
              h\<lparr>client_id := fst (get_next_id s)\<rparr>), snd (get_next_id s)))
   \<and> (\<exists>i rep s'.
        authenticate h s pw = (Inr (i, rep, h\<lparr>client_id := i\<rparr>), s')
        \<and> rep = format_04d i
        \<and> read_reply rep = i
        \<and> (- 1000 < i \<and> i < 10000 \<longrightarrow> length rep = 4)
        \<and> not_authenticated h s pw = (Inr (i < 0, rep, h\<lparr>client_id := i\<rparr>), s')
        \<and> handle pc h s pw reads =
            (Some rep, if 0 \<le> i then handle_loop pc (h\<lparr>client_id := i\<rparr>) s' reads
                       else (Inr (), s')))"
proof -
  have f: "format_04d (- 1) = ''-001''" by code_simp
  obtain i s' where g: "(if pw = password s then get_next_id s else (- 1, s)) = (i, s')"
    by (cases "if pw = password s then get_next_id s else (- 1, s)")
  have a: "authenticate h s pw = (Inr (i, format_04d i, h\<lparr>client_id := i\<rparr>), s')"
    using assms g by (simp add: authenticate_def)
  have n: "not_authenticated h s pw = (Inr (i < 0, format_04d i, h\<lparr>client_id := i\<rparr>), s')"
    using a by (simp add: not_authenticated_def)
  have hd: "handle pc h s pw reads =
      (Some (format_04d i), if 0 \<le> i then handle_loop pc (h\<lparr>client_id := i\<rparr>) s' reads
                             else (Inr (), s'))"
    using n by (auto simp: handle_def)
  have l: "- 1000 < i \<and> i < 10000 \<longrightarrow> length (format_04d i) = 4"
    by (simp add: length_format_04d)
  have 1: "pw \<noteq> password s \<longrightarrow>
      authenticate h s pw = (Inr (- 1, ''-001'', h\<lparr>client_id := - 1\<rparr>), s)"
    using a g f by auto
  have 2: "pw = password s \<longrightarrow>
      authenticate h s pw =
        (Inr (fst (get_next_id s), format_04d (fst (get_next_id s)),
              h\<lparr>client_id := fst (get_next_id s)\<rparr>), snd (get_next_id s))"
    using a g by auto
  from a n hd l read_reply_format_04d [of i]
  have 3: "\<exists>i rep s'.
        authenticate h s pw = (Inr (i, rep, h\<lparr>client_id := i\<rparr>), s')
        \<and> rep = format_04d i
        \<and> read_reply rep = i
        \<and> (- 1000 < i \<and> i < 10000 \<longrightarrow> length rep = 4)
        \<and> not_authenticated h s pw = (Inr (i < 0, rep, h\<lparr>client_id := i\<rparr>), s')
        \<and> handle pc h s pw reads =
            (Some rep, if 0 \<le> i then handle_loop pc (h\<lparr>client_id := i\<rparr>) s' reads
                       else (Inr (), s'))"
    by blast
  from 1 2 3 show ?thesis by blast
qed

theorem authenticate_reply_witness:
  "request (visitor 0) = Connected
   \<and> ''guess'' \<noteq> password (session [])
   \<and> authenticate (visitor 0) (session []) ''guess'' =
       (Inr (- 1, ''-001'', (visitor 0)\<lparr>client_id := - 1\<rparr>), session [])
   \<and> request (visitor 7) = Connected
   \<and> ''5f4dcc3b'' = password (session [])
   \<and> authenticate (visitor 7) (session []) ''5f4dcc3b'' =
       (Inr (0, ''0000'', (visitor 7)\<lparr>client_id := 0\<rparr>), (session [])\<lparr>last_id := 0\<rparr>)"
proof -
  have g: "get_next_id (session []) = (0, (session [])\<lparr>last_id := 0\<rparr>)"
    by (simp add: get_next_id_def example_defs)
  have f: "format_04d 0 = ''0000''" by code_simp
  have c: "request (visitor 0) = Connected" "request (visitor 7) = Connected"
    by (simp_all add: example_defs)
  have p: "''guess'' \<noteq> password (session [])" "''5f4dcc3b'' = password (session [])"
    by (simp_all add: example_defs)
  from authenticate_reply [OF c(1), of "''guess''" "session []" "''0123''" "[]"]
    authenticate_reply [OF c(2), of "''5f4dcc3b''" "session []" "''0123''" "[]"] c p g f
  show ?thesis by simp
qed

section \<open>The acknowledgement barrier\<close>

text \<open>
  C4: \<^verbatim>\<open>connect_ack(m)\<close>, called while the server waits for acknowledgements, adds the
  \<^verbatim>\<open>src_id\<close> of \<open>m\<close> to the acknowledged clients, and afterwards \<^verbatim>\<open>waiting_for_ack\<close> is
  false if and only if every id registered in \<^verbatim>\<open>clients\<close> is among the acknowledged ones;
  the list of acknowledged clients is emptied when the barrier releases.
\<close>

theorem connect_ack_barrier:
  assumes "waiting_for_ack s" and "acknowledged_clients s = Some acks"
  shows "\<exists>s'. connect_ack s m = (Inr (), s')
     \<and> (\<not> waiting_for_ack s') = (set (dict_keys (clients s)) \<subseteq> set (acks @ [src_id m]))
     \<and> acknowledged_clients s' = Some (if waiting_for_ack s' then acks @ [src_id m] else [])
     \<and> clients s' = clients s"
  using assms by (auto simp: connect_ack_def list_all_iff)

theorem connect_ack_barrier_witness:
  "waiting_for_ack (wait_for_ack (session [(0, peer 0 Connected), (1, peer 1 Connected)]))
   \<and> acknowledged_clients (wait_for_ack (session [(0, peer 0 Connected), (1, peer 1 Connected)]))
       = Some []
   \<and> (\<exists>s'. connect_ack (wait_for_ack (session [(0, peer 0 Connected), (1, peer 1 Connected)]))
             \<lparr>src_id = 1, reply = None, body = CONNECT_ACK\<rparr> = (Inr (), s')
         \<and> waiting_for_ack s'
         \<and> acknowledged_clients s' = Some [1])
   \<and> connect_ack ((wait_for_ack (session [(0, peer 0 Connected), (1, peer 1 Connected)]))
                      \<lparr>acknowledged_clients := Some [1]\<rparr>)
        \<lparr>src_id = 0, reply = None, body = CONNECT_ACK\<rparr>
       = (Inr (), (session [(0, peer 0 Connected), (1, peer 1 Connected)])
                    \<lparr>acknowledged_clients := Some []\<rparr>)"
proof -
  let ?s = "wait_for_ack (session [(0, peer 0 Connected), (1, peer 1 Connected)])"
  have 1: "waiting_for_ack ?s" and 2: "acknowledged_clients ?s = Some []"
    by (simp_all add: wait_for_ack_def)
  have k: "set (dict_keys (clients ?s)) = {0, 1}"
    by (simp add: wait_for_ack_def dict_keys_def example_defs)
  have r: "connect_ack (?s\<lparr>acknowledged_clients := Some [1]\<rparr>)
        \<lparr>src_id = 0, reply = None, body = CONNECT_ACK\<rparr>
       = (Inr (), (session [(0, peer 0 Connected), (1, peer 1 Connected)])
                    \<lparr>acknowledged_clients := Some []\<rparr>)"
    by (simp add: connect_ack_def wait_for_ack_def dict_keys_def example_defs)
  note t = connect_ack_barrier [OF 1 2, of "\<lparr>src_id = 1, reply = None, body = CONNECT_ACK\<rparr>",
      unfolded k, simplified]
  from t 1 2 r show ?thesis by auto
qed

section \<open>Messages during a pending join\<close>

text \<open>
  C8: while \<^verbatim>\<open>waiting_for_ack\<close> is true, a message that is neither a \<^verbatim>\<open>CONNECT\<close> nor a
  \<^verbatim>\<open>CONNECT_ACK\<close> is dropped silently: the handler leaves the whole server as it was, so
  the message is neither put on the dispatch queue nor sent to any peer, and the same holds
  for a packet of such messages. A \<^verbatim>\<open>CONNECT_ACK\<close> is not enqueued or sent either.
\<close>

theorem waiting_drops_messages:
  assumes "waiting_for_ack s"
  shows "(\<not> is_connect msg \<and> body msg \<noteq> CONNECT_ACK \<longrightarrow> handle_msg pc h s msg = (Inr (), s))
     \<and> (\<not> is_connect msg \<longrightarrow>
          msg_queue (snd (handle_msg pc h s msg)) = msg_queue s
          \<and> sent (snd (handle_msg pc h s msg)) = sent s
          \<and> document (snd (handle_msg pc h s msg)) = document s
          \<and> backend (snd (handle_msg pc h s msg)) = backend s)
     \<and> (list_all (\<lambda>m. \<not> is_connect m \<and> body m \<noteq> CONNECT_ACK) packet \<longrightarrow>
          handle_packet pc h s packet = (Inr (), s))"
proof -
  have one: "handle_msg pc h s m = (Inr (), s)"
    if "\<not> is_connect m" "body m \<noteq> CONNECT_ACK" for m
    using that assms by (simp add: handle_msg_def)
  have "handle_packet pc h s packet = (Inr (), s)"
    if "list_all (\<lambda>m. \<not> is_connect m \<and> body m \<noteq> CONNECT_ACK) packet"
    using that by (induction packet) (simp_all add: one)
  moreover have "msg_queue (snd (handle_msg pc h s msg)) = msg_queue s
      \<and> sent (snd (handle_msg pc h s msg)) = sent s
      \<and> document (snd (handle_msg pc h s msg)) = document s
      \<and> backend (snd (handle_msg pc h s msg)) = backend s"
    if "\<not> is_connect msg"
    using that assms by (simp add: handle_msg_def connect_ack_def split: option.splits)
  ultimately show ?thesis using one by blast
qed

theorem waiting_drops_messages_witness:
  "waiting_for_ack (wait_for_ack (session [(0, peer 0 Connected)]))
   \<and> handle_msg ''0123'' (visitor 0) (wait_for_ack (session [(0, peer 0 Connected)]))
        \<lparr>src_id = 0, reply = None, body = OPERATION [Str ''x''] 0\<rparr>
       = (Inr (), wait_for_ack (session [(0, peer 0 Connected)]))
   \<and> handle_msg ''0123'' (visitor 0) (session [(0, peer 0 Connected)])
        \<lparr>src_id = 0, reply = None, body = OPERATION [Str ''x''] 0\<rparr>
       = (Inr (), (session [(0, peer 0 Connected)])
            \<lparr>msg_queue := [\<lparr>src_id = 0, reply = None, body = OPERATION [Str ''x''] 0\<rparr>]\<rparr>)"
proof -
  let ?s = "wait_for_ack (session [(0, peer 0 Connected)])"
  let ?m = "\<lparr>src_id = 0, reply = None, body = OPERATION [Str ''x''] 0\<rparr>"
  have w: "waiting_for_ack ?s" by (simp add: wait_for_ack_def)
  have m: "\<not> is_connect ?m \<and> body ?m \<noteq> CONNECT_ACK" by (simp add: is_connect_def)
  have n: "handle_msg ''0123'' (visitor 0) (session [(0, peer 0 Connected)]) ?m
       = (Inr (), (session [(0, peer 0 Connected)])\<lparr>msg_queue := [?m]\<rparr>)"
    by (simp add: handle_msg_def is_connect_def example_defs)
  from waiting_drops_messages [OF w, of ?m "''0123''" "visitor 0" "[]"] w m n
  show ?thesis by simp
qed

section \<open>Id allocation at the maximum\<close>

lemma get_next_id_overflow:
  "max_id s \<le> last_id s \<Longrightarrow> fst (get_next_id s) = - 2"
  by (simp add: get_next_id_def)

text \<open>
  C1, on the code: in a session over the alphabet \<^verbatim>\<open>"0123"\<close> the ids 0 to 3 have been
  handed out, the peer 0 has left, and the peers 1, 2 and 3 are registered. The id 0 is
  free, yet \<^verbatim>\<open>get_next_id\<close> returns \<open>-2\<close>; it leaves \<^verbatim>\<open>last_id\<close> at 0, so that the call
  after it returns 1, the id of a registered peer.
\<close>

theorem get_next_id_at_maximum:
  "max_id ((session [(1, peer 1 Connected), (2, peer 2 Connected), (3, peer 3 Connected)])
      \<lparr>last_id := 3\<rparr>) = 3
   \<and> 0 \<notin> set (dict_keys (clients
        ((session [(1, peer 1 Connected), (2, peer 2 Connected), (3, peer 3 Connected)])
           \<lparr>last_id := 3\<rparr>)))
   \<and> get_next_id
        ((session [(1, peer 1 Connected), (2, peer 2 Connected), (3, peer 3 Connected)])
           \<lparr>last_id := 3\<rparr>)
       = (- 2, (session [(1, peer 1 Connected), (2, peer 2 Connected), (3, peer 3 Connected)])
                 \<lparr>last_id := 0\<rparr>)
   \<and> get_next_id
        ((session [(1, peer 1 Connected), (2, peer 2 Connected), (3, peer 3 Connected)])
           \<lparr>last_id := 0\<rparr>)
       = (1, (session [(1, peer 1 Connected), (2, peer 2 Connected), (3, peer 3 Connected)])
                 \<lparr>last_id := 1\<rparr>)
   \<and> 1 \<in> set (dict_keys (clients
        ((session [(1, peer 1 Connected), (2, peer 2 Connected), (3, peer 3 Connected)])
           \<lparr>last_id := 0\<rparr>)))"
  by (simp add: get_next_id_def range2_def dict_keys_def upto.simps example_defs)

section \<open>Broadcast and the reply flag\<close>

text \<open>
  C3, as stated, fails: a message without a \<^verbatim>\<open>reply\<close> flag is sent back to its author.
  Here peer 0 is the only registered client and the author of a message that has no
  \<^verbatim>\<open>reply\<close> flag; \<^verbatim>\<open>respond\<close> delivers the message to peer 0.
\<close>

theorem respond_absent_reply_reaches_author:
  "reply \<lparr>src_id = 0, reply = None, body = RESPONSE ''x''\<rparr> = None
   \<and> respond (session [(0, peer 0 Connected)]) \<lparr>src_id = 0, reply = None, body = RESPONSE ''x''\<rparr>
       = (Inr (), (session [(0, peer 0 Connected)])
            \<lparr>sent := [(0, \<lparr>src_id = 0, reply = None, body = RESPONSE ''x''\<rparr>)]\<rparr>)"
  by (simp add: respond_def send_def dict_values_def example_defs)

text \<open>
  C3, amended: when every registered client's socket delivers, \<^verbatim>\<open>respond\<close> sends \<open>msg\<close>,
  in the order of the registry, to every registered client \<open>c\<close> except those with
  \<open>c.id = msg.src_id\<close> while the \<^verbatim>\<open>reply\<close> flag is present and not 1. So a message without
  a \<^verbatim>\<open>reply\<close> flag, or with \<^verbatim>\<open>reply\<close> 1, goes to every client, its author included, and a
  message with a \<^verbatim>\<open>reply\<close> flag other than 1 goes to every client but its author.
\<close>

theorem respond_delivery:
  assumes "list_all (\<lambda>c. source c = Connected) (dict_values (clients s))"
  shows "respond s msg =
     (Inr (), s\<lparr>sent := sent s @ map (\<lambda>c. (id_num c, msg))
        (filter (\<lambda>c. \<not> (id_num c = src_id msg \<and> reply msg \<noteq> None \<and> reply msg \<noteq> Some 1))
           (dict_values (clients s)))\<rparr>)"
  using respond_loop_connected [OF assms] by (simp add: respond_def)

theorem respond_delivery_witness:
  "list_all (\<lambda>c. source c = Connected)
     (dict_values (clients (session [(0, peer 0 Connected), (1, peer 1 Connected)])))
   \<and> respond (session [(0, peer 0 Connected), (1, peer 1 Connected)])
        \<lparr>src_id = 0, reply = Some 0, body = RESPONSE ''x''\<rparr>
       = (Inr (), (session [(0, peer 0 Connected), (1, peer 1 Connected)])
            \<lparr>sent := [(1, \<lparr>src_id = 0, reply = Some 0, body = RESPONSE ''x''\<rparr>)]\<rparr>)
   \<and> respond (session [(0, peer 0 Connected), (1, peer 1 Connected)])
        \<lparr>src_id = 0, reply = Some 1, body = RESPONSE ''x''\<rparr>
       = (Inr (), (session [(0, peer 0 Connected), (1, peer 1 Connected)])
            \<lparr>sent := [(0, \<lparr>src_id = 0, reply = Some 1, body = RESPONSE ''x''\<rparr>),
                      (1, \<lparr>src_id = 0, reply = Some 1, body = RESPONSE ''x''\<rparr>)]\<rparr>)"
proof -
  let ?s = "session [(0, peer 0 Connected), (1, peer 1 Connected)]"
  have h: "list_all (\<lambda>c. source c = Connected) (dict_values (clients ?s))"
    by (simp add: dict_values_def example_defs)
  from respond_delivery [OF h, of "\<lparr>src_id = 0, reply = Some 0, body = RESPONSE ''x''\<rparr>"]
    respond_delivery [OF h, of "\<lparr>src_id = 0, reply = Some 1, body = RESPONSE ''x''\<rparr>"] h
  show ?thesis by (simp add: dict_values_def example_defs)
qed

section \<open>Joining\<close>

lemma send_frame: "\<exists>x. snd (send c m s) = s\<lparr>sent := x\<rparr>"
proof (cases "source c")
  case Connected
  then have "snd (send c m s) = s\<lparr>sent := sent s @ [(id_num c, m)]\<rparr>"
    by (simp add: send_def)
  then show ?thesis by blast
next
  case Broken
  then have "snd (send c m s) = s\<lparr>sent := sent s\<rparr>" by (simp add: send_def)
  then show ?thesis by blast
qed

lemma send_each_frame: "\<exists>x. snd (send_each cs m s) = s\<lparr>sent := x\<rparr>"
proof (induction cs arbitrary: s)
  case Nil
  have "snd (send_each [] m s) = s\<lparr>sent := sent s\<rparr>" by simp
  then show ?case by blast
next
  case (Cons c cs)
  obtain x where x: "snd (send c m s) = s\<lparr>sent := x\<rparr>" using send_frame by blast
  show ?case
  proof (cases "fst (send c m s)")
    case (Inl e)
    with x show ?thesis by (cases "send c m s") auto
  next
    case (Inr u)
    from Cons [of "s\<lparr>sent := x\<rparr>"] obtain y where
      "snd (send_each cs m (s\<lparr>sent := x\<rparr>)) = s\<lparr>sent := x\<rparr>\<lparr>sent := y\<rparr>" by blast
    with Inr x show ?thesis by (cases "send c m s") auto
  qed
qed

lemma update_all_clients_frame: "\<exists>x. snd (update_all_clients pc s) = s\<lparr>sent := x\<rparr>"
proof (cases "get_contents pc s")
  case (Inl e)
  then have "snd (update_all_clients pc s) = s\<lparr>sent := sent s\<rparr>"
    by (simp add: update_all_clients_def)
  then show ?thesis by blast
next
  case (Inr r)
  then show ?thesis
    using send_each_frame by (auto simp: update_all_clients_def split: prod.splits)
qed

lemma connect_clients_loop_connected:
  "list_all (\<lambda>c. source c = Connected) cs \<Longrightarrow> source new_client = Connected \<Longrightarrow>
   connect_clients_loop h new_client msg1 cs s =
     (Inr (), s\<lparr>sent := sent s @ concat (map (\<lambda>c.
        (id_num c, msg1) #
        (if address c \<noteq> client_address h
         then [(id_num new_client, MSG_CONNECT (id_num c) (name c) (hostname c) (port c))]
         else []) @
        [(id_num c, MSG_REQUEST_ACK (- 1))]) cs)\<rparr>)"
  by (induction cs arbitrary: s) (simp_all add: send_connected)

lemma set_setitem: "set (setitem d k v) \<subseteq> insert (k, v) (set d)"
  by (induction d) (auto split: if_splits)

lemma list_all_values_setitem:
  assumes "list_all P (dict_values d)" and "P v"
  shows "list_all P (dict_values (setitem d k v))"
  using set_setitem [of d k v] assms by (fastforce simp: list_all_iff dict_values_def)

lemma update_all_clients_connected:
  assumes "list_all (\<lambda>c. source c = Connected) (dict_values (clients s))"
    and "get_client_ranges pc s = Inr runs"
  shows "update_all_clients pc s =
     (Inr (), s\<lparr>sent := sent s @
        map (\<lambda>c. (id_num c, MSG_RESET (- 1) (document s) runs (get_client_locs s)))
          (dict_values (clients s))\<rparr>)"
  using assms by (simp add: update_all_clients_def get_contents_def send_each_connected)

lemma handle_connect_admits:
  assumes "body msg = CONNECT nm hst prt"
    and "client_address h \<notin> set (map address (dict_values (clients s)))"
    and "list_all (\<lambda>c. source c = Connected) (dict_values (clients s))"
    and "request h = Connected"
  shows "\<exists>x. handle_connect h s msg =
      (Inr (Some (Client (client_address h) (client_id h) (request h) nm)),
       s\<lparr>waiting_for_ack := True, acknowledged_clients := Some [],
         clients := setitem (clients s) (client_id h)
                      (Client (client_address h) (client_id h) (request h) nm),
         sent := x\<rparr>)"
proof -
  let ?new = "Client (client_address h) (client_id h) (request h) nm"
  let ?s1 = "(wait_for_ack s)\<lparr>clients := setitem (clients (wait_for_ack s)) (id_num ?new) ?new\<rparr>"
  have "list_all (\<lambda>c. source c = Connected) (dict_values (clients ?s1))"
    using assms(3,4) by (simp add: wait_for_ack_def Client_def list_all_values_setitem)
  moreover have "source ?new = Connected" using assms(4) by (simp add: Client_def)
  ultimately show ?thesis
    using assms(1,2)
    by (simp add: handle_connect_def connect_clients_def Let_def
        connect_clients_loop_connected wait_for_ack_def Client_def) blast
qed

lemma connect_clients_loop_frame:
  "\<exists>x. snd (connect_clients_loop h new_client msg1 cs s) = s\<lparr>sent := x\<rparr>"
proof (induction cs arbitrary: s)
  case Nil
  have "snd (connect_clients_loop h new_client msg1 [] s) = s\<lparr>sent := sent s\<rparr>" by simp
  then show ?case by blast
next
  case (Cons c cs)
  let ?m2 = "MSG_CONNECT (id_num c) (name c) (hostname c) (port c)"
  have send_cases: "send c' m s' = (Inl (DeadClientError (hostname c')), s')
      \<or> send c' m s' = (Inr (), s'\<lparr>sent := sent s' @ [(id_num c', m)]\<rparr>)" for c' m s'
    by (cases "source c'") (simp_all add: send_def)
  have keep: "\<exists>x. s = s\<lparr>sent := x\<rparr>"
  proof -
    have "s = s\<lparr>sent := sent s\<rparr>" by simp
    then show ?thesis by blast
  qed
  show ?case
    using send_cases [of c msg1 s]
  proof
    assume "send c msg1 s = (Inl (DeadClientError (hostname c)), s)"
    with keep show ?thesis by simp
  next
    assume a1: "send c msg1 s = (Inr (), s\<lparr>sent := sent s @ [(id_num c, msg1)]\<rparr>)"
    let ?s1 = "s\<lparr>sent := sent s @ [(id_num c, msg1)]\<rparr>"
    have two: "\<exists>r s2 x. (if address c \<noteq> client_address h then send new_client ?m2 ?s1
                      else (Inr (), ?s1)) = (r, s2) \<and> s2 = s\<lparr>sent := x\<rparr>"
      using send_cases [of new_client ?m2 ?s1] by auto
    then obtain r s2 x where
      a2: "(if address c \<noteq> client_address h then send new_client ?m2 ?s1
            else (Inr (), ?s1)) = (r, s2)" and s2: "s2 = s\<lparr>sent := x\<rparr>"
      by blast
    show ?thesis
    proof (cases r)
      case (Inl e)
      with a1 a2 s2 show ?thesis by auto
    next
      case (Inr u)
      show ?thesis
        using send_cases [of c "MSG_REQUEST_ACK (- 1)" s2]
      proof
        assume "send c (MSG_REQUEST_ACK (- 1)) s2 = (Inl (DeadClientError (hostname c)), s2)"
        with a1 a2 s2 Inr show ?thesis by auto
      next
        assume a3: "send c (MSG_REQUEST_ACK (- 1)) s2 =
            (Inr (), s2\<lparr>sent := sent s2 @ [(id_num c, MSG_REQUEST_ACK (- 1))]\<rparr>)"
        from Cons [of "s2\<lparr>sent := sent s2 @ [(id_num c, MSG_REQUEST_ACK (- 1))]\<rparr>"] s2
        obtain y where "snd (connect_clients_loop h new_client msg1 cs
             (s2\<lparr>sent := sent s2 @ [(id_num c, MSG_REQUEST_ACK (- 1))]\<rparr>)) = s\<lparr>sent := y\<rparr>"
          by auto
        with a1 a2 a3 Inr show ?thesis by auto
      qed
    qed
  qed
qed

lemma connect_clients_frame:
  "\<exists>x. snd (connect_clients h s new_client) =
        s\<lparr>clients := setitem (clients s) (id_num new_client) new_client, sent := x\<rparr>"
  using connect_clients_loop_frame
    [of h new_client _ _ "s\<lparr>clients := setitem (clients s) (id_num new_client) new_client\<rparr>"]
  by (auto simp: connect_clients_def Let_def)

lemma handle_connect_cases:
  assumes "body msg = CONNECT nm hst prt"
  shows "handle_connect h s msg = (Inr None, s)
     \<and> client_address h \<in> set (map address (dict_values (clients s)))
   \<or> (\<exists>r x. handle_connect h s msg =
          (r, s\<lparr>waiting_for_ack := True, acknowledged_clients := Some [],
                clients := setitem (clients s) (client_id h)
                             (Client (client_address h) (client_id h) (request h) nm),
                sent := x\<rparr>))
     \<and> client_address h \<notin> set (map address (dict_values (clients s)))"
proof (cases "client_address h \<in> set (map address (dict_values (clients s)))")
  case True
  with assms show ?thesis by (simp add: handle_connect_def)
next
  case False
  let ?new = "Client (client_address h) (client_id h) (request h) nm"
  obtain x where x: "snd (connect_clients h (wait_for_ack s) ?new) =
      (wait_for_ack s)\<lparr>clients := setitem (clients (wait_for_ack s)) (id_num ?new) ?new,
                       sent := x\<rparr>"
    using connect_clients_frame by blast
  have "\<exists>r. handle_connect h s msg =
          (r, s\<lparr>waiting_for_ack := True, acknowledged_clients := Some [],
                clients := setitem (clients s) (client_id h) ?new, sent := x\<rparr>)"
    using assms False x
    by (cases "connect_clients h (wait_for_ack s) ?new";
        cases "fst (connect_clients h (wait_for_ack s) ?new)")
       (auto simp: handle_connect_def Let_def wait_for_ack_def Client_def)
  with False show ?thesis by blast
qed

lemma send_each_success:
  "fst (send_each cs m s) = Inr () \<Longrightarrow>
   send_each cs m s = (Inr (), s\<lparr>sent := sent s @ map (\<lambda>c. (id_num c, m)) cs\<rparr>)"
proof (induction cs arbitrary: s)
  case Nil
  then show ?case by simp
next
  case (Cons c cs)
  show ?case
  proof (cases "source c")
    case Connected
    with Cons.prems have "fst (send_each cs m (s\<lparr>sent := sent s @ [(id_num c, m)]\<rparr>)) = Inr ()"
      by (simp add: send_def)
    from Cons.IH [OF this] Connected show ?thesis by (simp add: send_def)
  next
    case Broken
    with Cons.prems show ?thesis by (simp add: send_def)
  qed
qed

lemma update_all_clients_success:
  assumes "fst (update_all_clients pc s) = Inr ()"
  shows "\<exists>runs. get_client_ranges pc s = Inr runs
     \<and> update_all_clients pc s =
         (Inr (), s\<lparr>sent := sent s @
            map (\<lambda>c. (id_num c, MSG_RESET (- 1) (document s) runs (get_client_locs s)))
              (dict_values (clients s))\<rparr>)"
proof (cases "get_client_ranges pc s")
  case (Inl e)
  with assms show ?thesis by (simp add: update_all_clients_def get_contents_def)
next
  case (Inr runs)
  with assms have "fst (send_each (dict_values (clients s))
      (MSG_RESET (- 1) (document s) runs (get_client_locs s)) s) = Inr ()"
    by (simp add: update_all_clients_def get_contents_def)
  from send_each_success [OF this] Inr show ?thesis
    by (simp add: update_all_clients_def get_contents_def)
qed

lemma get_client_ranges_total:
  assumes "set (peer_tag_doc s) \<subseteq> set pc"
  shows "\<exists>runs. get_client_ranges pc s = Inr runs"
proof (cases "peer_tag_doc s")
  case Nil
  then show ?thesis by (simp add: get_client_ranges_def)
next
  case (Cons p_char rest)
  with assms have "set (p_char # rest) \<subseteq> set pc" and "0 < (1::int)" by simp_all
  from get_client_ranges_loop_runs [OF this, of "[]"] Cons show ?thesis
    by (auto simp: get_client_ranges_def)
qed

text \<open>
  C2, as stated, fails, in both of its parts. First input: peer 0 is registered and the
  document is \<^verbatim>\<open>ab\<close>, written by peer 0; a second peer joins. Afterwards the document and
  the annotation are what they were, and the last message sent is the \<^verbatim>\<open>RESET\<close> to the new
  peer, which carries the document. Second input: the same join, but the annotation holds
  a character outside the alphabet, so that building the \<^verbatim>\<open>RESET\<close> raises. The handler has
  admitted the peer and has reached the \<^verbatim>\<open>RESET\<close>, no \<^verbatim>\<open>RESET\<close> has been sent, and the
  revision log still holds its operation: the log is not reset before the \<^verbatim>\<open>RESET\<close>.
\<close>

theorem join_keeps_document:
  "fst (handle_msg ''0123'' (visitor 1)
         ((session [(0, peer 0 Connected)])
            \<lparr>document := ''ab'', peer_tag_doc := ''11'', backend := [[Str ''ab'']]\<rparr>)
         \<lparr>src_id = 1, reply = None, body = CONNECT ''bob'' ''10.0.0.7'' 50001\<rparr>) = Inr ()
   \<and> document (snd (handle_msg ''0123'' (visitor 1)
         ((session [(0, peer 0 Connected)])
            \<lparr>document := ''ab'', peer_tag_doc := ''11'', backend := [[Str ''ab'']]\<rparr>)
         \<lparr>src_id = 1, reply = None, body = CONNECT ''bob'' ''10.0.0.7'' 50001\<rparr>)) = ''ab''
   \<and> peer_tag_doc (snd (handle_msg ''0123'' (visitor 1)
         ((session [(0, peer 0 Connected)])
            \<lparr>document := ''ab'', peer_tag_doc := ''11'', backend := [[Str ''ab'']]\<rparr>)
         \<lparr>src_id = 1, reply = None, body = CONNECT ''bob'' ''10.0.0.7'' 50001\<rparr>)) = ''11''
   \<and> last (sent (snd (handle_msg ''0123'' (visitor 1)
         ((session [(0, peer 0 Connected)])
            \<lparr>document := ''ab'', peer_tag_doc := ''11'', backend := [[Str ''ab'']]\<rparr>)
         \<lparr>src_id = 1, reply = None, body = CONNECT ''bob'' ''10.0.0.7'' 50001\<rparr>)))
       = (1, MSG_RESET (- 1) ''ab'' [(0, 2)] [(0, 0), (1, 0)])
   \<and> handle_msg ''0123'' (visitor 1)
         ((session [(0, peer 0 Connected)])
            \<lparr>document := ''ab'', peer_tag_doc := ''zz'', backend := [[Str ''ab'']]\<rparr>)
         \<lparr>src_id = 1, reply = None, body = CONNECT ''bob'' ''10.0.0.7'' 50001\<rparr>
       = (Inl ValueError,
          (session [(0, peer 0 Connected), (1, Client (''10.0.0.7'', 50001) 1 Connected ''bob'')])
            \<lparr>document := ''ab'', peer_tag_doc := ''zz'', backend := [[Str ''ab'']],
              waiting_for_ack := True, acknowledged_clients := Some [],
              sent := [(0, MSG_CONNECT 1 ''bob'' ''10.0.0.7'' 50001),
                       (1, MSG_CONNECT 0 ''peer'' ''10.0.0.7'' 50000),
                       (0, MSG_REQUEST_ACK (- 1)),
                       (1, MSG_CONNECT 1 ''bob'' ''10.0.0.7'' 50001),
                       (1, MSG_REQUEST_ACK (- 1))]\<rparr>)"
  by (simp add: handle_msg_def is_connect_def handle_connect_def connect_clients_def
      wait_for_ack_def update_all_clients_def get_contents_def get_client_ranges_def
      get_peer_id_from_char_def get_client_locs_def clear_history_def send_def
      dict_values_def hostname_def port_def Let_def example_defs)

text \<open>
  C2, amended: for every \<^verbatim>\<open>CONNECT\<close> the handler processes, and so for every new peer join,
  the document and the peer annotation are left as they were. Emptying the revision log
  is the last step, after the \<^verbatim>\<open>RESET\<close> has been sent to every registered peer: when the
  handler raises, be it while it admits the peer or while it builds and sends the
  \<^verbatim>\<open>RESET\<close>, the revision log is what it was before; when the handler returns, the log is
  empty (the revision number is 0), and the last messages sent are the \<^verbatim>\<open>RESET\<close> to every
  registered peer, one each, carrying the uncleared document, the ranges of the annotation
  and the cursors; and a \<^verbatim>\<open>CONNECT\<close> from a new address has registered the client and
  raised the barrier.
\<close>

theorem join_sends_reset_then_clears_history:
  assumes "body msg = CONNECT nm hst prt"
  shows "document (snd (handle_msg pc h s msg)) = document s
    \<and> peer_tag_doc (snd (handle_msg pc h s msg)) = peer_tag_doc s
    \<and> (fst (handle_msg pc h s msg) \<noteq> Inr () \<longrightarrow>
         backend (snd (handle_msg pc h s msg)) = backend s)
    \<and> (fst (handle_msg pc h s msg) = Inr () \<longrightarrow>
         length (backend (snd (handle_msg pc h s msg))) = 0
         \<and> (\<exists>runs before. get_client_ranges pc s = Inr runs
              \<and> sent (snd (handle_msg pc h s msg)) = before @
                   map (\<lambda>c. (id_num c, MSG_RESET (- 1) (document s) runs
                                (get_client_locs (snd (handle_msg pc h s msg)))))
                     (dict_values (clients (snd (handle_msg pc h s msg)))))
         \<and> (client_address h \<notin> set (map address (dict_values (clients s))) \<longrightarrow>
              waiting_for_ack (snd (handle_msg pc h s msg))
              \<and> clients (snd (handle_msg pc h s msg)) =
                  setitem (clients s) (client_id h)
                    (Client (client_address h) (client_id h) (request h) nm)))"
proof -
  let ?new = "Client (client_address h) (client_id h) (request h) nm"
  let ?adm = "client_address h \<notin> set (map address (dict_values (clients s)))"
  obtain r1 s1 where hc: "handle_connect h s msg = (r1, s1)"
    by (cases "handle_connect h s msg")
  from handle_connect_cases [OF assms, of h s] hc
  have s1: "document s1 = document s" "peer_tag_doc s1 = peer_tag_doc s"
      "backend s1 = backend s"
    and adm: "?adm \<longrightarrow> waiting_for_ack s1 \<and> clients s1 = setitem (clients s) (client_id h) ?new"
    by auto
  obtain r2 s2 where ua: "update_all_clients pc s1 = (r2, s2)"
    by (cases "update_all_clients pc s1")
  obtain x where x: "s2 = s1\<lparr>sent := x\<rparr>"
    using update_all_clients_frame [of pc s1] ua by auto
  have ic: "is_connect msg" using assms by (simp add: is_connect_def)
  show ?thesis
  proof (cases r1)
    case (Inl e)
    with hc ic s1 show ?thesis by (simp add: handle_msg_def)
  next
    case r1: (Inr c)
    show ?thesis
    proof (cases r2)
      case (Inl e)
      with hc ic r1 ua x s1 show ?thesis by (simp add: handle_msg_def)
    next
      case (Inr u)
      with ua have "fst (update_all_clients pc s1) = Inr ()" by simp
      from update_all_clients_success [OF this] ua obtain runs where
        runs: "get_client_ranges pc s1 = Inr runs"
        and s2: "s2 = s1\<lparr>sent := sent s1 @
            map (\<lambda>c. (id_num c, MSG_RESET (- 1) (document s1) runs (get_client_locs s1)))
              (dict_values (clients s1))\<rparr>"
        by auto
      have hm: "handle_msg pc h s msg = (Inr (), clear_history s2)"
        using hc ic r1 ua Inr by (simp add: handle_msg_def)
      have locs: "get_client_locs (clear_history s2) = get_client_locs s1"
        by (simp add: s2 clear_history_def get_client_locs_def)
      have r: "get_client_ranges pc s = Inr runs"
        using runs s1(2) by (simp add: get_client_ranges_def)
      have "sent (clear_history s2) = sent s1 @
          map (\<lambda>c. (id_num c, MSG_RESET (- 1) (document s) runs
                       (get_client_locs (clear_history s2))))
            (dict_values (clients (clear_history s2)))"
        unfolding locs using s1(1) by (simp add: s2 clear_history_def)
      with r have ex: "\<exists>runs before. get_client_ranges pc s = Inr runs
          \<and> sent (clear_history s2) = before @
               map (\<lambda>c. (id_num c, MSG_RESET (- 1) (document s) runs
                            (get_client_locs (clear_history s2))))
                 (dict_values (clients (clear_history s2)))"
        by blast
      have rest: "document (clear_history s2) = document s"
        "peer_tag_doc (clear_history s2) = peer_tag_doc s"
        "length (backend (clear_history s2)) = 0"
        "?adm \<longrightarrow> waiting_for_ack (clear_history s2)
           \<and> clients (clear_history s2) = setitem (clients s) (client_id h) ?new"
        using s1 adm by (simp_all add: s2 clear_history_def)
      from ex rest show ?thesis unfolding hm by simp
    qed
  qed
qed

theorem join_sends_reset_then_clears_history_witness:
  "body \<lparr>src_id = 1, reply = None, body = CONNECT ''bob'' ''10.0.0.7'' 50001\<rparr>
     = CONNECT ''bob'' ''10.0.0.7'' 50001
   \<and> fst (handle_msg ''0123'' (visitor 1)
          ((session [(0, peer 0 Connected)])
             \<lparr>document := ''ab'', peer_tag_doc := ''11'', backend := [[Str ''ab'']]\<rparr>)
          \<lparr>src_id = 1, reply = None, body = CONNECT ''bob'' ''10.0.0.7'' 50001\<rparr>) = Inr ()
   \<and> document (snd (handle_msg ''0123'' (visitor 1)
          ((session [(0, peer 0 Connected)])
             \<lparr>document := ''ab'', peer_tag_doc := ''11'', backend := [[Str ''ab'']]\<rparr>)
          \<lparr>src_id = 1, reply = None, body = CONNECT ''bob'' ''10.0.0.7'' 50001\<rparr>)) = ''ab''
   \<and> length (backend (snd (handle_msg ''0123'' (visitor 1)
          ((session [(0, peer 0 Connected)])
             \<lparr>document := ''ab'', peer_tag_doc := ''11'', backend := [[Str ''ab'']]\<rparr>)
          \<lparr>src_id = 1, reply = None, body = CONNECT ''bob'' ''10.0.0.7'' 50001\<rparr>))) = 0
   \<and> waiting_for_ack (snd (handle_msg ''0123'' (visitor 1)
          ((session [(0, peer 0 Connected)])
             \<lparr>document := ''ab'', peer_tag_doc := ''11'', backend := [[Str ''ab'']]\<rparr>)
          \<lparr>src_id = 1, reply = None, body = CONNECT ''bob'' ''10.0.0.7'' 50001\<rparr>))
   \<and> fst (handle_msg ''0123'' (visitor 0)
          ((session [(0, peer 0 Connected), (1, peer 1 Broken)])
             \<lparr>document := ''ab'', peer_tag_doc := ''11'', backend := [[Str ''ab'']]\<rparr>)
          \<lparr>src_id = 1, reply = None, body = CONNECT ''bob'' ''10.0.0.7'' 50001\<rparr>)
       = Inl (DeadClientError ''10.0.0.7'')
   \<and> backend (snd (handle_msg ''0123'' (visitor 0)
          ((session [(0, peer 0 Connected), (1, peer 1 Broken)])
             \<lparr>document := ''ab'', peer_tag_doc := ''11'', backend := [[Str ''ab'']]\<rparr>)
          \<lparr>src_id = 1, reply = None, body = CONNECT ''bob'' ''10.0.0.7'' 50001\<rparr>))
       = [[Str ''ab'']]
   \<and> sent (snd (handle_msg ''0123'' (visitor 0)
          ((session [(0, peer 0 Connected), (1, peer 1 Broken)])
             \<lparr>document := ''ab'', peer_tag_doc := ''11'', backend := [[Str ''ab'']]\<rparr>)
          \<lparr>src_id = 1, reply = None, body = CONNECT ''bob'' ''10.0.0.7'' 50001\<rparr>))
       = [(0, MSG_RESET (- 1) ''ab'' [(0, 2)] [(0, 0), (1, 0)])]"
proof -
  let ?m = "\<lparr>src_id = 1, reply = None, body = CONNECT ''bob'' ''10.0.0.7'' 50001\<rparr>"
  let ?a = "(session [(0, peer 0 Connected)])
             \<lparr>document := ''ab'', peer_tag_doc := ''11'', backend := [[Str ''ab'']]\<rparr>"
  let ?b = "(session [(0, peer 0 Connected), (1, peer 1 Broken)])
             \<lparr>document := ''ab'', peer_tag_doc := ''11'', backend := [[Str ''ab'']]\<rparr>"
  have 1: "body ?m = CONNECT ''bob'' ''10.0.0.7'' 50001" by simp
  have new: "client_address (visitor 1) \<notin> set (map address (dict_values (clients ?a)))"
    by (simp add: dict_values_def example_defs)
  have ok: "fst (handle_msg ''0123'' (visitor 1) ?a ?m) = Inr ()"
    by (simp add: handle_msg_def is_connect_def handle_connect_def connect_clients_def
        wait_for_ack_def update_all_clients_def get_contents_def get_client_ranges_def
        get_peer_id_from_char_def get_client_locs_def clear_history_def send_def
        dict_values_def hostname_def port_def Let_def example_defs)
  have dead: "fst (handle_msg ''0123'' (visitor 0) ?b ?m) = Inl (DeadClientError ''10.0.0.7'')"
    "sent (snd (handle_msg ''0123'' (visitor 0) ?b ?m))
       = [(0, MSG_RESET (- 1) ''ab'' [(0, 2)] [(0, 0), (1, 0)])]"
    by (simp_all add: handle_msg_def is_connect_def handle_connect_def
        update_all_clients_def get_contents_def get_client_ranges_def
        get_peer_id_from_char_def get_client_locs_def send_def
        dict_values_def hostname_def Let_def example_defs)
  from join_sends_reset_then_clears_history [OF 1, of "''0123''" "visitor 1" ?a] ok new
  have a: "document (snd (handle_msg ''0123'' (visitor 1) ?a ?m)) = ''ab''"
    "length (backend (snd (handle_msg ''0123'' (visitor 1) ?a ?m))) = 0"
    "waiting_for_ack (snd (handle_msg ''0123'' (visitor 1) ?a ?m))"
    by simp_all
  from join_sends_reset_then_clears_history [OF 1, of "''0123''" "visitor 0" ?b] dead(1)
  have b: "backend (snd (handle_msg ''0123'' (visitor 0) ?b ?m)) = [[Str ''ab'']]"
    by simp
  from 1 ok a dead b show ?thesis by simp
qed

section \<open>A second \<^verbatim>\<open>CONNECT\<close> from a registered address\<close>

text \<open>
  C10: when a \<^verbatim>\<open>CONNECT\<close> arrives from an address that already is the address of a
  registered client, \<^verbatim>\<open>handle_connect\<close> returns no client and leaves the server as it was;
  after the handler has processed the message, the registry, \<^verbatim>\<open>waiting_for_ack\<close> and the
  acknowledged clients are unchanged, whether a send fails or not; and when every send
  succeeds the handler still sends a \<^verbatim>\<open>RESET\<close> to every registered client and empties the
  revision log.
\<close>

theorem connect_from_registered_address:
  assumes "body msg = CONNECT nm hst prt"
    and "client_address h \<in> set (map address (dict_values (clients s)))"
  shows "handle_connect h s msg = (Inr None, s)
    \<and> clients (snd (handle_msg pc h s msg)) = clients s
    \<and> waiting_for_ack (snd (handle_msg pc h s msg)) = waiting_for_ack s
    \<and> acknowledged_clients (snd (handle_msg pc h s msg)) = acknowledged_clients s
    \<and> (list_all (\<lambda>c. source c = Connected) (dict_values (clients s))
         \<and> set (peer_tag_doc s) \<subseteq> set pc \<longrightarrow>
       (\<exists>runs. get_client_ranges pc s = Inr runs
          \<and> handle_msg pc h s msg =
              (Inr (), s\<lparr>sent := sent s @
                 map (\<lambda>c. (id_num c, MSG_RESET (- 1) (document s) runs (get_client_locs s)))
                   (dict_values (clients s)),
                 backend := []\<rparr>)))"
proof -
  have hc: "handle_connect h s msg = (Inr None, s)"
    using assms by (simp add: handle_connect_def)
  obtain x where x: "snd (update_all_clients pc s) = s\<lparr>sent := x\<rparr>"
    using update_all_clients_frame by blast
  have hm: "snd (handle_msg pc h s msg) = s\<lparr>sent := x\<rparr>
      \<or> snd (handle_msg pc h s msg) = clear_history (s\<lparr>sent := x\<rparr>)"
    using assms(1) hc x
    by (cases "update_all_clients pc s"; cases "fst (update_all_clients pc s)")
       (auto simp: handle_msg_def is_connect_def)
  then have frame: "clients (snd (handle_msg pc h s msg)) = clients s
    \<and> waiting_for_ack (snd (handle_msg pc h s msg)) = waiting_for_ack s
    \<and> acknowledged_clients (snd (handle_msg pc h s msg)) = acknowledged_clients s"
    by (auto simp: clear_history_def)
  have "\<exists>runs. get_client_ranges pc s = Inr runs
          \<and> handle_msg pc h s msg =
              (Inr (), s\<lparr>sent := sent s @
                 map (\<lambda>c. (id_num c, MSG_RESET (- 1) (document s) runs (get_client_locs s)))
                   (dict_values (clients s)),
                 backend := []\<rparr>)"
    if c: "list_all (\<lambda>c. source c = Connected) (dict_values (clients s))"
      and t: "set (peer_tag_doc s) \<subseteq> set pc"
  proof -
    from get_client_ranges_total [OF t] obtain runs where
      runs: "get_client_ranges pc s = Inr runs" by blast
    from update_all_clients_connected [OF c runs] assms(1) hc runs show ?thesis
      by (simp add: handle_msg_def is_connect_def clear_history_def)
  qed
  with hc frame show ?thesis by blast
qed

theorem connect_from_registered_address_witness:
  "body \<lparr>src_id = 0, reply = None, body = CONNECT ''ann'' ''10.0.0.7'' 50000\<rparr>
     = CONNECT ''ann'' ''10.0.0.7'' 50000
   \<and> client_address (visitor 0) \<in> set (map address (dict_values (clients
        ((session [(0, peer 0 Connected)])\<lparr>backend := [[Str ''ab'']]\<rparr>))))
   \<and> handle_connect (visitor 0) ((session [(0, peer 0 Connected)])\<lparr>backend := [[Str ''ab'']]\<rparr>)
        \<lparr>src_id = 0, reply = None, body = CONNECT ''ann'' ''10.0.0.7'' 50000\<rparr>
       = (Inr None, (session [(0, peer 0 Connected)])\<lparr>backend := [[Str ''ab'']]\<rparr>)
   \<and> handle_msg ''0123'' (visitor 0)
        ((session [(0, peer 0 Connected)])\<lparr>backend := [[Str ''ab'']]\<rparr>)
        \<lparr>src_id = 0, reply = None, body = CONNECT ''ann'' ''10.0.0.7'' 50000\<rparr>
       = (Inr (), (session [(0, peer 0 Connected)])
            \<lparr>sent := [(0, MSG_RESET (- 1) [] [] [(0, 0)])]\<rparr>)"
proof -
  let ?s = "(session [(0, peer 0 Connected)])\<lparr>backend := [[Str ''ab'']]\<rparr>"
  let ?m = "\<lparr>src_id = 0, reply = None, body = CONNECT ''ann'' ''10.0.0.7'' 50000\<rparr>"
  have 1: "body ?m = CONNECT ''ann'' ''10.0.0.7'' 50000" by simp
  have 2: "client_address (visitor 0) \<in> set (map address (dict_values (clients ?s)))"
    by (simp add: dict_values_def example_defs)
  have 3: "list_all (\<lambda>c. source c = Connected) (dict_values (clients ?s))
      \<and> set (peer_tag_doc ?s) \<subseteq> set ''0123''"
    by (simp add: dict_values_def example_defs)
  have 4: "get_client_ranges ''0123'' ?s = Inr []"
    by (simp add: get_client_ranges_def example_defs)
  have 5: "?s\<lparr>sent := sent ?s @
                 map (\<lambda>c. (id_num c, MSG_RESET (- 1) (document ?s) [] (get_client_locs ?s)))
                   (dict_values (clients ?s)),
                 backend := []\<rparr>
        = (session [(0, peer 0 Connected)])\<lparr>sent := [(0, MSG_RESET (- 1) [] [] [(0, 0)])]\<rparr>"
    by (simp add: get_client_locs_def dict_values_def example_defs)
  from connect_from_registered_address [OF 1 2, of "''0123''"] 3 4
  have "handle_connect (visitor 0) ?s ?m = (Inr None, ?s)"
    and "handle_msg ''0123'' (visitor 0) ?s ?m =
       (Inr (), ?s\<lparr>sent := sent ?s @
                 map (\<lambda>c. (id_num c, MSG_RESET (- 1) (document ?s) [] (get_client_locs ?s)))
                   (dict_values (clients ?s)),
                 backend := []\<rparr>)"
    by auto
  with 1 2 5 show ?thesis by simp
qed

section \<open>Eviction of a dead client\<close>

lemma respond_loop_append_connected:
  "list_all (\<lambda>c. source c = Connected) xs \<Longrightarrow>
   respond_loop (xs @ ys) msg s =
     respond_loop ys msg (s\<lparr>sent := sent s @ map (\<lambda>c. (id_num c, msg))
        (filter (\<lambda>c. \<not> (id_num c = src_id msg \<and> reply msg \<noteq> None \<and> reply msg \<noteq> Some 1))
           xs)\<rparr>)"
  by (induction xs arbitrary: s) (auto simp: send_connected)

text \<open>
  One dead client among connected ones: when the send to the client \<open>c\<close> registered under
  \<open>k\<close> fails and every other registered client's socket delivers, \<^verbatim>\<open>respond\<close> removes \<open>c\<close>
  from the registry, sends one \<^verbatim>\<open>REMOVE\<close> for \<open>k\<close> to every other client, and goes on with
  the clients after \<open>c\<close>.
\<close>

lemma respond_evicts_one_dead_client:
  assumes "clients s = pre @ (k, c) # post"
    and "source c = Broken" and "id_num c = k"
    and "k \<notin> set (dict_keys (pre @ post))"
    and "list_all (\<lambda>c. source c = Connected) (dict_values (pre @ post))"
    and "id_num c \<noteq> src_id msg \<or> reply msg = None \<or> reply msg = Some 1"
  shows "respond s msg =
     (Inr (), s\<lparr>clients := pre @ post,
        sent := sent s
          @ map (\<lambda>c. (id_num c, msg))
              (filter (\<lambda>c. \<not> (id_num c = src_id msg \<and> reply msg \<noteq> None \<and> reply msg \<noteq> Some 1))
                 (dict_values pre))
          @ map (\<lambda>c. (id_num c, MSG_REMOVE k)) (dict_values (pre @ post))
          @ map (\<lambda>c. (id_num c, msg))
              (filter (\<lambda>c. \<not> (id_num c = src_id msg \<and> reply msg \<noteq> None \<and> reply msg \<noteq> Some 1))
                 (dict_values post))\<rparr>)"
proof -
  let ?keep = "\<lambda>c. \<not> (id_num c = src_id msg \<and> reply msg \<noteq> None \<and> reply msg \<noteq> Some 1)"
  let ?s1 = "s\<lparr>sent := sent s @ map (\<lambda>c. (id_num c, msg)) (filter ?keep (dict_values pre))\<rparr>"
  have pre: "list_all (\<lambda>c. source c = Connected) (dict_values pre)"
    and post: "list_all (\<lambda>c. source c = Connected) (dict_values post)"
    using assms(5) by (simp_all add: dict_values_def)
  have vals: "dict_values (clients s) = dict_values pre @ c # dict_values post"
    using assms(1) by (simp add: dict_values_def)
  have "filter (\<lambda>kv. fst kv \<noteq> k) pre = pre" and "filter (\<lambda>kv. fst kv \<noteq> k) post = post"
    using assms(4) by (auto simp: dict_keys_def filter_id_conv)
  then have del: "delitem (clients ?s1) k = pre @ post"
    using assms(1) by (simp add: delitem_def)
  have mem: "k \<in> set (dict_keys (clients ?s1))"
    using assms(1) by (simp add: dict_keys_def)
  have rm: "remove_client ?s1 k =
      (Inr (), ?s1\<lparr>clients := pre @ post,
         sent := sent ?s1 @ map (\<lambda>c. (id_num c, MSG_REMOVE k)) (dict_values (pre @ post))\<rparr>)"
    using mem del assms(5) by (simp add: remove_client_def Let_def send_each_connected)
  have step: "respond_loop (c # dict_values post) msg ?s1 =
      respond_loop (dict_values post) msg
        (?s1\<lparr>clients := pre @ post,
           sent := sent ?s1 @ map (\<lambda>c. (id_num c, MSG_REMOVE k)) (dict_values (pre @ post))\<rparr>)"
    using assms(2,3,6) rm by (auto simp: send_def)
  show ?thesis
    unfolding respond_def vals
    by (simp only: respond_loop_append_connected [OF pre] step respond_loop_connected [OF post])
       simp
qed

text \<open>
  C9, on the code: the peers 0 and 1 are dead and peer 2 is alive; peer 1 sits on another
  host. The send to peer 0 fails and peer 0 is removed; the \<^verbatim>\<open>REMOVE\<close> for peer 0 is sent
  to peer 1 first, that send fails inside the \<^verbatim>\<open>except\<close> clause, and the
  \<^verbatim>\<open>DeadClientError\<close> for the host of peer 1 leaves \<^verbatim>\<open>respond\<close>: peer 1 is still
  registered, peer 2 has received neither the \<^verbatim>\<open>REMOVE\<close> nor the message, and the turn
  of the dispatch loop that made the broadcast ends with the exception.
\<close>

theorem respond_two_dead_clients:
  "respond (session [(0, peer 0 Broken), (1, Client (''10.0.0.8'', 50001) 1 Broken ''peer''),
                     (2, peer 2 Connected)])
     \<lparr>src_id = - 1, reply = None, body = RESPONSE ''x''\<rparr>
     = (Inl (DeadClientError ''10.0.0.8''),
        session [(1, Client (''10.0.0.8'', 50001) 1 Broken ''peer''), (2, peer 2 Connected)])
   \<and> sent (session [(1, Client (''10.0.0.8'', 50001) 1 Broken ''peer''), (2, peer 2 Connected)])
       = []
   \<and> update_send (\<lambda>a b. Inr (a, b)) (\<lambda>v. Inr 0) ''0123''
       ((session [(0, peer 0 Broken), (1, Client (''10.0.0.8'', 50001) 1 Broken ''peer''),
                  (2, peer 2 Connected)])
          \<lparr>msg_queue := [\<lparr>src_id = - 1, reply = None, body = RESPONSE ''x''\<rparr>]\<rparr>)
     = (Inl (DeadClientError ''10.0.0.8''),
        session [(1, Client (''10.0.0.8'', 50001) 1 Broken ''peer''), (2, peer 2 Connected)])"
  by (simp add: update_send_def is_operation_def respond_def remove_client_def send_def
      dict_values_def dict_keys_def delitem_def hostname_def example_defs)

section \<open>The barrier in reachable servers\<close>

lemma same_barrier_refl: "same_barrier s s"
  by (simp add: same_barrier_def)

lemma same_barrier_trans: "same_barrier s s' \<Longrightarrow> same_barrier s' s'' \<Longrightarrow> same_barrier s s''"
  by (simp add: same_barrier_def)

lemma same_barrier_ready: "same_barrier s s' \<Longrightarrow> barrier_ready s \<Longrightarrow> barrier_ready s'"
  by (simp add: same_barrier_def barrier_ready_def)

lemma same_barrier_send_each: "same_barrier s (snd (send_each cs m s))"
proof -
  obtain x where "snd (send_each cs m s) = s\<lparr>sent := x\<rparr>" using send_each_frame by blast
  then show ?thesis by (simp add: same_barrier_def)
qed

lemma same_barrier_send: "same_barrier s (snd (send c m s))"
proof -
  obtain x where "snd (send c m s) = s\<lparr>sent := x\<rparr>" using send_frame by blast
  then show ?thesis by (simp add: same_barrier_def)
qed

lemma same_barrier_remove_client: "same_barrier s (snd (remove_client s k))"
proof -
  let ?s1 = "if k \<in> set (dict_keys (clients s)) then s\<lparr>clients := delitem (clients s) k\<rparr> else s"
  have "same_barrier s ?s1" by (simp add: same_barrier_def)
  moreover have "same_barrier ?s1 (snd (remove_client s k))"
    unfolding remove_client_def Let_def by (rule same_barrier_send_each)
  ultimately show ?thesis by (rule same_barrier_trans)
qed

lemma same_barrier_respond_loop: "same_barrier s (snd (respond_loop cs msg s))"
proof (induction cs arbitrary: s)
  case Nil
  show ?case by (simp add: same_barrier_refl)
next
  case (Cons c cs)
  show ?case
  proof (cases "id_num c \<noteq> src_id msg \<or> reply msg = None \<or> reply msg = Some 1")
    case False
    with Cons show ?thesis by auto
  next
    case True
    show ?thesis
    proof (cases "source c")
      case Connected
      have "same_barrier s (s\<lparr>sent := sent s @ [(id_num c, msg)]\<rparr>)"
        by (simp add: same_barrier_def)
      from same_barrier_trans [OF this Cons] Connected True show ?thesis
        by (simp add: send_def)
    next
      case Broken
      show ?thesis
      proof (cases "remove_client s (id_num c)")
        case (Pair r s2)
        with same_barrier_remove_client [of s "id_num c"] have sb: "same_barrier s s2" by simp
        show ?thesis
        proof (cases r)
          case (Inl e)
          with Pair Broken True sb show ?thesis by (simp add: send_def)
        next
          case (Inr u)
          from same_barrier_trans [OF sb Cons] Inr Pair Broken True show ?thesis
            by (simp add: send_def)
        qed
      qed
    qed
  qed
qed

lemma same_barrier_respond: "same_barrier s (snd (respond s msg))"
  by (simp add: respond_def same_barrier_respond_loop)

lemma same_barrier_handle_operation:
  "same_barrier s (snd (handle_operation tr get_operation_index pc s m))"
  by (auto simp: handle_operation_def receive_operation_def same_barrier_def
      split: msg_body.splits sum.splits prod.splits if_splits)

lemma same_barrier_update_send:
  "same_barrier s (snd (update_send tr get_operation_index pc s))"
proof (cases "msg_queue s")
  case Nil
  then show ?thesis by (simp add: update_send_def same_barrier_refl)
next
  case (Cons msg q)
  have q: "same_barrier s (s\<lparr>msg_queue := q\<rparr>)" by (simp add: same_barrier_def)
  show ?thesis
  proof (cases "is_operation msg")
    case False
    with Cons same_barrier_trans [OF q same_barrier_respond] show ?thesis
      by (simp add: update_send_def)
  next
    case True
    show ?thesis
    proof (cases "handle_operation tr get_operation_index pc (s\<lparr>msg_queue := q\<rparr>) msg")
      case (Pair r s1)
      with same_barrier_handle_operation [of "s\<lparr>msg_queue := q\<rparr>" tr get_operation_index pc msg]
      have "same_barrier (s\<lparr>msg_queue := q\<rparr>) s1" by simp
      with q have s1: "same_barrier s s1" by (rule same_barrier_trans)
      show ?thesis
      proof (cases r)
        case (Inl e)
        with Pair Cons True s1 show ?thesis by (simp add: update_send_def)
      next
        case (Inr msg')
        with Pair Cons True same_barrier_trans [OF s1 same_barrier_respond] show ?thesis
          by (simp add: update_send_def)
      qed
    qed
  qed
qed

lemma same_barrier_get_next_id: "same_barrier s (snd (get_next_id s))"
proof -
  have "same_barrier s (get_next_id_scan ns s)" for ns
    by (induction ns arbitrary: s) (auto simp: same_barrier_def)
  then show ?thesis by (simp add: get_next_id_def Let_def same_barrier_def)
qed

lemma same_barrier_authenticate: "same_barrier s (snd (authenticate h s pw))"
  using same_barrier_get_next_id [of s]
  by (auto simp: authenticate_def same_barrier_refl split: prod.splits socket.splits)

lemma barrier_ready_handle_connect: "barrier_ready (snd (handle_connect h s msg)) \<or>
    same_barrier s (snd (handle_connect h s msg))"
proof (cases "body msg")
  case (CONNECT nm hst prt)
  show ?thesis
  proof (cases "client_address h \<notin> set (map address (dict_values (clients s)))")
    case False
    with CONNECT show ?thesis by (simp add: handle_connect_def same_barrier_refl)
  next
    case True
    let ?new = "Client (client_address h) (client_id h) (request h) nm"
    let ?s1 = "(wait_for_ack s)\<lparr>clients := setitem (clients (wait_for_ack s)) (id_num ?new) ?new\<rparr>"
    obtain x where x: "snd (connect_clients h (wait_for_ack s) ?new) = ?s1\<lparr>sent := x\<rparr>"
      using connect_clients_loop_frame [of h ?new _ _ ?s1]
      by (auto simp: connect_clients_def Let_def)
    have "barrier_ready (?s1\<lparr>sent := x\<rparr>)" by (simp add: barrier_ready_def wait_for_ack_def)
    with x True CONNECT show ?thesis
      by (cases "connect_clients h (wait_for_ack s) ?new";
          cases "fst (connect_clients h (wait_for_ack s) ?new)")
         (auto simp: handle_connect_def Let_def)
  qed
qed (simp_all add: handle_connect_def same_barrier_refl)

lemma barrier_ready_connect_ack: "barrier_ready (snd (connect_ack s m))"
  if "barrier_ready s"
  using that by (auto simp: connect_ack_def barrier_ready_def split: option.splits)

lemma barrier_ready_handle_msg:
  assumes "barrier_ready s"
  shows "barrier_ready (snd (handle_msg pc h s msg))"
proof (cases "is_connect msg")
  case True
  obtain r s1 where hc: "handle_connect h s msg = (r, s1)" by (cases "handle_connect h s msg")
  with barrier_ready_handle_connect [of h s msg] assms have s1: "barrier_ready s1"
    by (auto dest: same_barrier_ready)
  obtain x where x: "snd (update_all_clients pc s1) = s1\<lparr>sent := x\<rparr>"
    using update_all_clients_frame by blast
  from s1 have "barrier_ready (s1\<lparr>sent := x\<rparr>)" "barrier_ready (clear_history (s1\<lparr>sent := x\<rparr>))"
    by (simp_all add: barrier_ready_def clear_history_def)
  with True hc s1 x show ?thesis
    by (cases r; cases "update_all_clients pc s1"; cases "fst (update_all_clients pc s1)")
       (auto simp: handle_msg_def)
next
  case False
  with assms barrier_ready_connect_ack [OF assms, of msg] show ?thesis
    by (auto simp: handle_msg_def barrier_ready_def)
qed

text \<open>
  In every reachable server the list of acknowledged clients exists while the server
  waits for acknowledgements, so \<^verbatim>\<open>connect_ack\<close>, which \<^verbatim>\<open>handle\<close> calls only then,
  does not raise.
\<close>

lemma reachable_barrier_ready:
  "reachable tr get_operation_index pc digest s \<Longrightarrow> barrier_ready s"
proof (induction rule: reachable.induct)
  case start
  show ?case by (simp add: barrier_ready_def init_def)
next
  case (login s h pw)
  then show ?case using same_barrier_ready [OF same_barrier_authenticate] by blast
next
  case (message s h msg)
  then show ?case by (simp add: barrier_ready_handle_msg)
next
  case (lost s h)
  then show ?case
    using same_barrier_ready [OF same_barrier_remove_client]
    by (simp add: handle_client_lost_def)
next
  case (dispatch s)
  then show ?case using same_barrier_ready [OF same_barrier_update_send] by blast
qed

lemma reachable_waiting_has_acks:
  assumes "reachable tr get_operation_index pc digest s" and "waiting_for_ack s"
  shows "\<exists>acks. acknowledged_clients s = Some acks"
  using reachable_barrier_ready [OF assms(1)] assms(2) by (auto simp: barrier_ready_def)


end
